theory Spec2Isabelle
  imports Main
begin

section \<open>Python library functions used by actions.py\<close>

text \<open>
  Strings are lists of characters, one \<^typ>\<open>char\<close> per code point below 256.
  \<^verbatim>\<open>str.strip()\<close> removes leading and trailing whitespace; the whitespace code
  points below 256 are 9 to 13, 28 to 32, 133 and 160.
\<close>

definition isspace :: "char \<Rightarrow> bool" where
  "isspace c = (of_char c \<in> {9, 10, 11, 12, 13, 28, 29, 30, 31, 32, 133, 160 :: nat})"

definition strip :: "string \<Rightarrow> string" where
  "strip s = rev (dropWhile isspace (rev (dropWhile isspace s)))"

text \<open>\<^verbatim>\<open>s[:-4]\<close>: everything but the last four characters (empty when there are fewer).\<close>

definition drop_last4 :: "string \<Rightarrow> string" where
  "drop_last4 s = take (length s - 4) s"

text \<open>\<^verbatim>\<open>image.split('.')[-1]\<close>: the text after the last dot (the whole string without one).\<close>

definition after_last_dot :: "string \<Rightarrow> string" where
  "after_last_dot s = rev (takeWhile (\<lambda>c. c \<noteq> CHR ''.'') (rev s))"

subsection \<open>os.path (posixpath)\<close>

definition os_path_basename :: "string \<Rightarrow> string" where
  "os_path_basename p = rev (takeWhile (\<lambda>c. c \<noteq> CHR ''/'') (rev p))"

text \<open>
  \<^verbatim>\<open>os.path.split\<close>: the head is everything up to the last slash, with its trailing
  slashes removed unless it consists of slashes only.
\<close>

definition os_path_split :: "string \<Rightarrow> string \<times> string" where
  "os_path_split p =
     (let head = rev (dropWhile (\<lambda>c. c \<noteq> CHR ''/'') (rev p));
          tail = rev (takeWhile (\<lambda>c. c \<noteq> CHR ''/'') (rev p))
      in if head \<noteq> [] \<and> (\<exists>c \<in> set head. c \<noteq> CHR ''/'')
         then (rev (dropWhile (\<lambda>c. c = CHR ''/'') (rev head)), tail)
         else (head, tail))"

definition os_path_dirname :: "string \<Rightarrow> string" where
  "os_path_dirname p = fst (os_path_split p)"

text \<open>\<^verbatim>\<open>os.path.join(a, b)\<close>; \<^verbatim>\<open>os.path.join(a, b, c)\<close> is the join of the join.\<close>

definition os_path_join :: "string \<Rightarrow> string \<Rightarrow> string" where
  "os_path_join a b =
     (if b \<noteq> [] \<and> hd b = CHR ''/'' then b
      else if a = [] \<or> last a = CHR ''/'' then a @ b
      else a @ ''/'' @ b)"

definition os_path_join3 :: "string \<Rightarrow> string \<Rightarrow> string \<Rightarrow> string" where
  "os_path_join3 a b c = os_path_join (os_path_join a b) c"

subsection \<open>re\<close>

text \<open>
  The regular-expression engine is a library, and the patterns of the settings file are
  configuration that is not part of the sources. A compiled pattern is represented by
  what \<^verbatim>\<open>re.finditer\<close> yields for it on a subject string: the spans
  \<open>(start, end)\<close> of its successive non-overlapping matches, from left to right.
  \<^verbatim>\<open>re.search\<close>, \<^verbatim>\<open>re.split\<close> and \<^verbatim>\<open>re.sub\<close> (with a
  replacement that has no group reference) are functions of these spans. A capturing
  group would add elements to the result of \<^verbatim>\<open>re.split\<close> after the first one; the
  code reads beyond the first element only for the literal pattern \<open>' - '\<close>.
\<close>

type_synonym pattern = "string \<Rightarrow> (nat \<times> nat) list"

definition re_search :: "pattern \<Rightarrow> string \<Rightarrow> bool" where
  "re_search p s = (p s \<noteq> [])"

fun pieces :: "string \<Rightarrow> nat \<Rightarrow> (nat \<times> nat) list \<Rightarrow> string list" where
  "pieces s pos [] = [drop pos s]"
| "pieces s pos ((a, b) # ms) = take (a - pos) (drop pos s) # pieces s b ms"

definition re_split :: "pattern \<Rightarrow> string \<Rightarrow> string list" where
  "re_split p s = pieces s 0 (p s)"

fun subst :: "string \<Rightarrow> string \<Rightarrow> nat \<Rightarrow> (nat \<times> nat) list \<Rightarrow> string" where
  "subst repl s pos [] = drop pos s"
| "subst repl s pos ((a, b) # ms) = take (a - pos) (drop pos s) @ repl @ subst repl s b ms"

definition re_sub :: "pattern \<Rightarrow> string \<Rightarrow> string \<Rightarrow> string" where
  "re_sub p repl s = subst repl s 0 (p s)"

text \<open>
  A pattern without metacharacters matches its own text: the scan finds the leftmost
  occurrence, then continues after it. The pattern \<^verbatim>\<open>r"feat\."\<close> is the literal
  \<open>feat.\<close>, the pattern \<^verbatim>\<open>' - '\<close> is the literal of these three characters.
\<close>

function scan :: "string \<Rightarrow> nat \<Rightarrow> string \<Rightarrow> (nat \<times> nat) list" where
  "scan l pos [] = (if l = [] then [(pos, pos)] else [])"
| "scan l pos (c # cs) =
     (if l = [] then (pos, pos) # scan l (Suc pos) cs
      else if take (length l) (c # cs) = l
           then (pos, pos + length l) # scan l (pos + length l) (drop (length l - 1) cs)
           else scan l (Suc pos) cs)"
  by pat_completeness auto
termination
  by (relation "measure (\<lambda>(l, pos, s). length s)") auto

definition literal :: "string \<Rightarrow> pattern" where
  "literal l s = scan l 0 s"

text \<open>The patterns of the settings (\<^verbatim>\<open>sd.settings\<close>, read from the configuration file).\<close>

record settings =
  and_tags :: pattern
  feature_tags :: pattern
  feature2_tags :: pattern
  invalid_tags :: pattern

section \<open>The world: file system, tag containers, progress output\<close>

datatype exn =
    FileNotFoundError | FileExistsError | IsADirectoryError | PermissionError
  | SameFileError | ShutilError | ValueError | KeyError | IndexError
  | ID3NoHeaderError | MutagenError | HTTPError

text \<open>
  An ID3 tag container: the text frames the code reads and writes (EasyID3 gives each
  as a list of strings, and raises KeyError for an absent one), the attached pictures by
  their description (in the order of the container), and every other frame, which the
  code never touches.
\<close>

record picture =
  encoding :: nat
  mime :: string
  ptype :: nat
  data :: "nat list"

record id3 =
  tag_artist :: "string list option"
  tag_title :: "string list option"
  apic :: "(string \<times> picture) list"
  other_frames :: "(string \<times> string) list"

record mp3 =
  id3_tags :: "id3 option"
  audio :: "nat list"
  writable :: bool

text \<open>
  Modelled from the spec: \<^verbatim>\<open>pt.ProgressBar\<close> (resources/per_tools.py is not among
  the sources). The spec's ProgressState is "count processed / total"; the progress
  indicator is "advanced once per processed item". \<^verbatim>\<open>ProgressBar(n)\<close> starts at
  count 0 of n, \<^verbatim>\<open>print\<close> emits the current count and total, and
  \<^verbatim>\<open>inc_and_print\<close> adds one to the count and emits.
\<close>

record progress_bar =
  count :: nat
  total :: nat

text \<open>
  The world is the disk (regular files by path, directories), the terminal's progress
  output and the progress bar. Three more fields observe the run without influencing
  it: the loop variable at the start of each iteration (\<open>attempted\<close>), the files whose
  new tags were saved (\<open>tagged\<close>) and those relocated to the quarantine folder
  (\<open>quarantined\<close>). Paths are compared as they are spelled.
\<close>

record world =
  files :: "string \<rightharpoonup> mp3"
  dirs :: "string set"
  pg :: progress_bar
  printed :: "(nat \<times> nat) list"
  attempted :: "string list"
  tagged :: "string list"
  quarantined :: "string list"

text \<open>A call either returns a value or raises; the world at that moment comes with both.\<close>

datatype 'a outcome = Returned 'a world | Raised exn world

text \<open>
  Modelled from the spec: the constructor of \<^verbatim>\<open>pt.ProgressBar\<close> (the class is not
  among the sources); nothing is processed yet, the total is the number of files.
\<close>

definition ProgressBar :: "nat \<Rightarrow> progress_bar" where
  "ProgressBar n = \<lparr>count = 0, total = n\<rparr>"

text \<open>
  Modelled from the spec: \<^verbatim>\<open>ProgressBar.print\<close> (not among the sources), the
  progress update "count/total" that the caller sees on the terminal.
\<close>

definition pg_print :: "world \<Rightarrow> world" where
  "pg_print w = w\<lparr>printed := printed w @ [(count (pg w), total (pg w))]\<rparr>"

text \<open>
  Modelled from the spec: \<^verbatim>\<open>ProgressBar.inc_and_print\<close> (not among the sources),
  "advanced once per processed item": one more item is counted, then the update is
  printed.
\<close>

definition inc_and_print :: "world \<Rightarrow> world" where
  "inc_and_print w = pg_print (w\<lparr>pg := (pg w)\<lparr>count := Suc (count (pg w))\<rparr>\<rparr>)"

subsection \<open>os and shutil on regular files\<close>

text \<open>
  \<^verbatim>\<open>os.rename\<close>: the source must exist; renaming a file to itself does nothing; the
  target must not be a directory and its directory must exist; an existing target file
  is replaced.
\<close>

definition os_rename :: "string \<Rightarrow> string \<Rightarrow> world \<Rightarrow> unit outcome" where
  "os_rename src dst w =
     (case files w src of
        None \<Rightarrow> Raised FileNotFoundError w
      | Some m \<Rightarrow>
          if src = dst then Returned () w
          else if dst \<in> dirs w then Raised IsADirectoryError w
          else if os_path_dirname dst \<notin> dirs w then Raised FileNotFoundError w
          else Returned () (w\<lparr>files := ((files w)(src := None))(dst \<mapsto> m)\<rparr>))"

definition os_mkdir :: "string \<Rightarrow> world \<Rightarrow> unit outcome" where
  "os_mkdir p w =
     (if p \<in> dirs w \<or> files w p \<noteq> None then Raised FileExistsError w
      else if os_path_dirname p \<notin> dirs w then Raised FileNotFoundError w
      else Returned () (w\<lparr>dirs := insert p (dirs w)\<rparr>))"

definition os_unlink :: "string \<Rightarrow> world \<Rightarrow> unit outcome" where
  "os_unlink p w =
     (case files w p of
        None \<Rightarrow> Raised FileNotFoundError w
      | Some m \<Rightarrow> Returned () (w\<lparr>files := (files w)(p := None)\<rparr>))"

text \<open>
  \<^verbatim>\<open>shutil.copy2\<close>: a directory as target means the file of the same basename in
  it; copying a file onto itself raises SameFileError; the target is opened for writing
  (its directory must exist, it must not be a directory nor a read-only file); content
  and metadata are copied.
\<close>

definition shutil_copy2 :: "string \<Rightarrow> string \<Rightarrow> world \<Rightarrow> unit outcome" where
  "shutil_copy2 src dst w =
     (let dst' = (if dst \<in> dirs w then os_path_join dst (os_path_basename src) else dst)
      in case files w src of
           None \<Rightarrow> Raised FileNotFoundError w
         | Some m \<Rightarrow>
             if dst' = src then Raised SameFileError w
             else if dst' \<in> dirs w then Raised IsADirectoryError w
             else if os_path_dirname dst' \<notin> dirs w then Raised FileNotFoundError w
             else (case files w dst' of
                     None \<Rightarrow> Returned () (w\<lparr>files := (files w)(dst' \<mapsto> m)\<rparr>)
                   | Some m' \<Rightarrow>
                       if writable m' then Returned () (w\<lparr>files := (files w)(dst' \<mapsto> m)\<rparr>)
                       else Raised PermissionError w))"

text \<open>
  \<^verbatim>\<open>shutil.move\<close> of a regular file: into a directory it refuses to replace an
  existing entry; otherwise it renames, and when the rename raises it copies and then
  removes the source.
\<close>

definition shutil_move :: "string \<Rightarrow> string \<Rightarrow> world \<Rightarrow> unit outcome" where
  "shutil_move src dst w =
     (let real_dst = (if dst \<in> dirs w then os_path_join dst (os_path_basename src) else dst)
      in if dst \<in> dirs w \<and> (real_dst \<in> dirs w \<or> files w real_dst \<noteq> None)
         then Raised ShutilError w
         else (case os_rename src real_dst w of
                 Returned u w' \<Rightarrow> Returned () w'
               | Raised e w' \<Rightarrow>
                   (case shutil_copy2 src real_dst w' of
                      Raised e' w'' \<Rightarrow> Raised e' w''
                    | Returned u w'' \<Rightarrow> os_unlink src w'')))"

subsection \<open>mutagen\<close>

text \<open>
  \<^verbatim>\<open>MP3(file, ID3=ID3)\<close> loads the file and its tag container, if it has one.
  \<^verbatim>\<open>add_tags\<close> raises when the loaded file already has a container, and gives it an
  empty one otherwise (in memory). \<^verbatim>\<open>EasyID3(file)\<close> raises for a file without a
  container. \<^verbatim>\<open>save\<close> writes the container held in memory into the file and leaves
  the rest of the file as it is; it raises on a missing or read-only file, writing
  nothing.
\<close>

definition empty_id3 :: id3 where
  "empty_id3 = \<lparr>tag_artist = None, tag_title = None, apic = [], other_frames = []\<rparr>"

definition MP3 :: "string \<Rightarrow> world \<Rightarrow> (id3 option) outcome" where
  "MP3 file w =
     (case files w file of
        None \<Rightarrow> Raised MutagenError w
      | Some m \<Rightarrow> Returned (id3_tags m) w)"

definition add_tags :: "id3 option \<Rightarrow> exn + id3" where
  "add_tags t = (case t of None \<Rightarrow> Inr empty_id3 | Some t' \<Rightarrow> Inl MutagenError)"

definition EasyID3 :: "string \<Rightarrow> world \<Rightarrow> id3 outcome" where
  "EasyID3 file w =
     (case files w file of
        None \<Rightarrow> Raised MutagenError w
      | Some m \<Rightarrow>
          (case id3_tags m of
             None \<Rightarrow> Raised ID3NoHeaderError w
           | Some t \<Rightarrow> Returned t w))"

definition save :: "string \<Rightarrow> id3 \<Rightarrow> world \<Rightarrow> unit outcome" where
  "save file t w =
     (case files w file of
        None \<Rightarrow> Raised MutagenError w
      | Some m \<Rightarrow>
          if writable m then Returned () (w\<lparr>files := (files w)(file \<mapsto> m\<lparr>id3_tags := Some t\<rparr>)\<rparr>)
          else Raised PermissionError w)"

text \<open>\<^verbatim>\<open>tag_list["artist"][0]\<close>: KeyError without the frame, IndexError on an empty one.\<close>

definition first_artist :: "id3 \<Rightarrow> exn + string" where
  "first_artist t =
     (case tag_artist t of
        None \<Rightarrow> Inl KeyError
      | Some [] \<Rightarrow> Inl IndexError
      | Some (a # as) \<Rightarrow> Inr a)"


subsection \<open>The artwork provider\<close>

text \<open>
  The client \<^verbatim>\<open>ds\<close>, after authentication. \<^verbatim>\<open>ds.search\<close> gives a lazy list:
  reading element \<open>i\<close> and the image URIs of that result either raises or gives the
  URIs. \<^verbatim>\<open>ds._fetcher.fetch\<close> either raises or gives the bytes behind a URI.
\<close>

record provider =
  search :: "string \<Rightarrow> (exn + string list) list"
  fetch :: "string \<Rightarrow> exn + nat list"

text \<open>\<^verbatim>\<open>results[i].images[0]['uri']\<close>\<close>

definition image_uri :: "(exn + string list) list \<Rightarrow> nat \<Rightarrow> exn + string" where
  "image_uri results i =
     (if i < length results
      then (case results ! i of
              Inl e \<Rightarrow> Inl e
            | Inr images \<Rightarrow> (case images of [] \<Rightarrow> Inl IndexError | uri # rest \<Rightarrow> Inr uri))
      else Inl IndexError)"

text \<open>The three statements of each inner try block: the URI, its extension, the bytes.\<close>

definition fetch_image :: "provider \<Rightarrow> (exn + string list) list \<Rightarrow> nat \<Rightarrow> exn + (string \<times> nat list)" where
  "fetch_image ds results i =
     (case image_uri results i of
        Inl e \<Rightarrow> Inl e
      | Inr img \<Rightarrow>
          (case fetch ds img of
             Inl e \<Rightarrow> Inl e
           | Inr content \<Rightarrow> Inr (after_last_dot img, content)))"

definition APIC :: "string \<Rightarrow> nat list \<Rightarrow> picture" where
  "APIC ext content = \<lparr>encoding = 3, mime = ''image/'' @ ext, ptype = 0, data = content\<rparr>"

text \<open>
  \<^verbatim>\<open>tags.add(APIC(..., desc=u'Cover', ...))\<close> stores the frame under a key made of
  its description: a picture of that description is replaced, otherwise the picture is
  added.
\<close>

fun dict_set :: "'k \<Rightarrow> 'v \<Rightarrow> ('k \<times> 'v) list \<Rightarrow> ('k \<times> 'v) list" where
  "dict_set k v [] = [(k, v)]"
| "dict_set k v ((k', v') # kvs) =
     (if k' = k then (k, v) # kvs else (k', v') # dict_set k v kvs)"

definition tags_add :: "id3 \<Rightarrow> picture \<Rightarrow> id3" where
  "tags_add t pic = t\<lparr>apic := dict_set ''Cover'' pic (apic t)\<rparr>"

section \<open>The four actions\<close>

text \<open>
  Each action is modelled from the point where the file list, the source directory
  (\<^verbatim>\<open>sd.source\<close>), the destination and the authenticated client are known; the
  prompts, the file discovery and the authentication come before it.
\<close>

definition start :: "nat \<Rightarrow> world \<Rightarrow> world" where
  "start n w =
     pg_print (w\<lparr>pg := ProgressBar n, printed := [], attempted := [], tagged := [],
                 quarantined := []\<rparr>)"

definition begin_item :: "string \<Rightarrow> world \<Rightarrow> world" where
  "begin_item file w = w\<lparr>attempted := attempted w @ [file]\<rparr>"

text \<open>A \<^verbatim>\<open>for\<close> loop over a list that the body does not change.\<close>

fun for_each :: "(string \<Rightarrow> world \<Rightarrow> unit outcome) \<Rightarrow> string list \<Rightarrow> world \<Rightarrow> unit outcome" where
  "for_each body [] w = Returned () w"
| "for_each body (file # rest) w =
     (case body file w of
        Raised e w' \<Rightarrow> Raised e w'
      | Returned u w' \<Rightarrow> for_each body rest w')"

subsection \<open>get_artwork\<close>

text \<open>Lines 186 to 188: the artist to search for.\<close>

definition get_artwork_artist :: "settings \<Rightarrow> id3 \<Rightarrow> exn + string" where
  "get_artwork_artist st tag_list =
     (case first_artist tag_list of
        Inl e \<Rightarrow> Inl e
      | Inr artist0 \<Rightarrow>
          (let artist1 = strip (hd (re_split (and_tags st) artist0));
               artist2 = strip (hd (re_split (feature_tags st) artist1))
           in Inr artist2))"

text \<open>
  Lines 192 to 215: the first result's image, on any exception the second result's;
  then the picture is added to the loaded container and the file saved. Whatever is
  raised in there is swallowed.
\<close>

definition embed_artwork :: "provider \<Rightarrow> string \<Rightarrow> id3 \<Rightarrow> string \<Rightarrow> world \<Rightarrow> world" where
  "embed_artwork ds file tmp_tags artist w =
     (let results = search ds artist;
          fetched = (case fetch_image ds results 0 of
                       Inr r \<Rightarrow> Inr r
                     | Inl e \<Rightarrow> fetch_image ds results 1)
      in case fetched of
           Inl e \<Rightarrow> w
         | Inr (ext, content) \<Rightarrow>
             (case save file (tags_add tmp_tags (APIC ext content)) w of
                Returned u w' \<Rightarrow> w'
              | Raised e w' \<Rightarrow> w'))"

definition get_artwork_item :: "provider \<Rightarrow> settings \<Rightarrow> string \<Rightarrow> world \<Rightarrow> unit outcome" where
  "get_artwork_item ds st file w0 =
     (let w = begin_item file w0
      in case MP3 file w of
           Raised e w' \<Rightarrow> Raised e w'
         | Returned loaded w1 \<Rightarrow>
             (let tmp_tags = (case add_tags loaded of
                                Inr fresh \<Rightarrow> fresh
                              | Inl e \<Rightarrow> (case loaded of Some t \<Rightarrow> t | None \<Rightarrow> empty_id3))
              in case EasyID3 file w1 of
                   Raised e w' \<Rightarrow> Raised e w'
                 | Returned tag_list w2 \<Rightarrow>
                     (case get_artwork_artist st tag_list of
                        Inl e \<Rightarrow> Raised e w2
                      | Inr artist \<Rightarrow>
                          Returned () (inc_and_print (embed_artwork ds file tmp_tags artist w2)))))"

definition get_artwork :: "provider \<Rightarrow> settings \<Rightarrow> string list \<Rightarrow> world \<Rightarrow> (string list) outcome" where
  "get_artwork ds st fls w =
     (case for_each (get_artwork_item ds st) fls (start (length fls) w) of
        Raised e w' \<Rightarrow> Raised e w'
      | Returned u w' \<Rightarrow> Returned fls w')"

subsection \<open>id3_correct\<close>

text \<open>
  The body of the loop, lines 292 to 318, on the list element \<open>file\<close>; \<open>fls\<close> is the
  list being iterated, which \<^verbatim>\<open>files.remove\<close> changes (it removes the first equal
  element and raises ValueError when there is none).
\<close>

definition id3_item :: "settings \<Rightarrow> string \<Rightarrow> string \<Rightarrow> string list \<Rightarrow> world \<Rightarrow> (string list) outcome" where
  "id3_item st source file0 fls w0 =
     (let w = begin_item file0 w0;
          (head, basename0) = os_path_split file0;
          basename1 = re_sub (feature_tags st) '' ft. '' basename0;
          basename = re_sub (feature2_tags st) ''(ft. '' basename1;
          tmp_file = os_path_join head basename
      in case os_rename file0 tmp_file w of
           Raised e w' \<Rightarrow> Raised e w'
         | Returned u w1 \<Rightarrow>
             (let file = tmp_file;
                  tags = re_split (literal '' - '') basename
              in if re_search (invalid_tags st) basename \<or> length tags \<noteq> 2
                 then (case os_rename file (os_path_join3 source ''_invalid'' basename) w1 of
                         Raised e w' \<Rightarrow> Raised e w'
                       | Returned u w2 \<Rightarrow>
                           if file \<in> set fls
                           then Returned (remove1 file fls)
                                  (inc_and_print (w2\<lparr>quarantined := quarantined w2 @ [file0]\<rparr>))
                           else Raised ValueError (w2\<lparr>quarantined := quarantined w2 @ [file0]\<rparr>))
                 else (case EasyID3 file w1 of
                         Raised e w' \<Rightarrow> Raised e w'
                       | Returned tag_list w2 \<Rightarrow>
                           (let artist_name = strip (tags ! 0);
                                title_name = strip (drop_last4 (tags ! 1));
                                tag_list' = tag_list\<lparr>tag_artist := Some [artist_name],
                                                      tag_title := Some [title_name]\<rparr>
                            in case save file tag_list' w2 of
                                 Raised e w' \<Rightarrow> Raised e w'
                               | Returned u w3 \<Rightarrow>
                                   Returned fls
                                     (inc_and_print (w3\<lparr>tagged := tagged w3 @ [file0]\<rparr>))))))"

lemma id3_item_length:
  "id3_item st source file0 fls w0 = Returned fls' w' \<Longrightarrow> length fls' \<le> length fls"
  by (auto simp: id3_item_def Let_def length_remove1
           split: prod.splits outcome.splits if_splits)

text \<open>
  The loop of line 291 reads the list by a running index and compares the index with
  the current length before each iteration.
\<close>

function id3_loop :: "settings \<Rightarrow> string \<Rightarrow> nat \<Rightarrow> string list \<Rightarrow> world \<Rightarrow> (string list) outcome" where
  "id3_loop st source i fls w =
     (if i < length fls
      then (case id3_item st source (fls ! i) fls w of
              Raised e w' \<Rightarrow> Raised e w'
            | Returned fls' w' \<Rightarrow> id3_loop st source (Suc i) fls' w')
      else Returned fls w)"
  by pat_completeness auto
termination
proof (relation "measure (\<lambda>(st, source, i, fls, w). length fls - i)")
  show "wf (measure (\<lambda>(st, source, i, fls, w). length fls - i))"
    by simp
next
  fix st :: settings and source :: string and i :: nat
    and fls :: "string list" and w :: world and fls' :: "string list" and w' :: world
  assume "i < length fls" and "id3_item st source (fls ! i) fls w = Returned fls' w'"
  then have "length fls' \<le> length fls"
    using id3_item_length by blast
  with \<open>i < length fls\<close>
  show "((st, source, Suc i, fls', w'), (st, source, i, fls, w))
          \<in> measure (\<lambda>(st, source, i, fls, w). length fls - i)"
    by simp
qed

declare id3_loop.simps [simp del]

text \<open>Lines 280 to 289, the loop, and the return of the list.\<close>

definition id3_correct :: "settings \<Rightarrow> string \<Rightarrow> string list \<Rightarrow> world \<Rightarrow> (string list) outcome" where
  "id3_correct st source fls w =
     (let w1 = (case os_mkdir (os_path_join source ''_invalid'') w of
                  Returned u w' \<Rightarrow> w'
                | Raised e w' \<Rightarrow> w')
      in id3_loop st source 0 fls (start (length fls) w1))"

subsection \<open>file_copy and file_move\<close>

text \<open>Lines 399 to 401 and lines 495 to 497: the artist that names the folder.\<close>

definition file_copy_artist :: "settings \<Rightarrow> id3 \<Rightarrow> exn + string" where
  "file_copy_artist st tag_list =
     (case first_artist tag_list of
        Inl e \<Rightarrow> Inl e
      | Inr artist0 \<Rightarrow>
          (let artist1 = strip (hd (re_split (and_tags st) artist0));
               artist2 = strip (hd (re_split (feature_tags st) artist1))
           in Inr artist2))"

definition file_move_artist :: "settings \<Rightarrow> id3 \<Rightarrow> exn + string" where
  "file_move_artist st tag_list =
     (case first_artist tag_list of
        Inl e \<Rightarrow> Inl e
      | Inr artist0 \<Rightarrow>
          (let artist1 = strip (hd (re_split (and_tags st) artist0));
               artist2 = strip (hd (re_split (feature_tags st) artist1))
           in Inr artist2))"

text \<open>
  \<^verbatim>\<open>os.mkdir\<close> under \<^verbatim>\<open>except FileExistsError\<close>: that exception alone is
  swallowed.
\<close>

definition mkdir_exist_ok :: "string \<Rightarrow> world \<Rightarrow> unit outcome" where
  "mkdir_exist_ok p w =
     (case os_mkdir p w of
        Returned u w' \<Rightarrow> Returned () w'
      | Raised e w' \<Rightarrow> if e = FileExistsError then Returned () w' else Raised e w')"

definition file_copy_item :: "settings \<Rightarrow> string \<Rightarrow> string \<Rightarrow> world \<Rightarrow> unit outcome" where
  "file_copy_item st destination file w0 =
     (let w = begin_item file w0
      in case EasyID3 file w of
           Raised e w' \<Rightarrow> Raised e w'
         | Returned tag_list w1 \<Rightarrow>
             (case file_copy_artist st tag_list of
                Inl e \<Rightarrow> Raised e w1
              | Inr artist \<Rightarrow>
                  (case mkdir_exist_ok (os_path_join destination artist) w1 of
                     Raised e w' \<Rightarrow> Raised e w'
                   | Returned u w2 \<Rightarrow>
                       (let basename = os_path_basename file;
                            w3 = (case shutil_copy2 file
                                         (os_path_join3 destination artist basename) w2 of
                                    Returned u w' \<Rightarrow> w'
                                  | Raised e w' \<Rightarrow> w')
                        in Returned () (inc_and_print w3)))))"

definition file_copy :: "settings \<Rightarrow> string \<Rightarrow> string list \<Rightarrow> world \<Rightarrow> (string list) outcome" where
  "file_copy st destination fls w =
     (case for_each (file_copy_item st destination) fls (start (length fls) w) of
        Raised e w' \<Rightarrow> Raised e w'
      | Returned u w' \<Rightarrow> Returned fls w')"

definition file_move_item :: "settings \<Rightarrow> string \<Rightarrow> string \<Rightarrow> world \<Rightarrow> unit outcome" where
  "file_move_item st destination file w0 =
     (let w = begin_item file w0
      in case EasyID3 file w of
           Raised e w' \<Rightarrow> Raised e w'
         | Returned tag_list w1 \<Rightarrow>
             (case file_move_artist st tag_list of
                Inl e \<Rightarrow> Raised e w1
              | Inr artist \<Rightarrow>
                  (case mkdir_exist_ok (os_path_join destination artist) w1 of
                     Raised e w' \<Rightarrow> Raised e w'
                   | Returned u w2 \<Rightarrow>
                       (let basename = os_path_basename file;
                            w3 = (case shutil_move file
                                         (os_path_join3 destination artist basename) w2 of
                                    Returned u w' \<Rightarrow> w'
                                  | Raised e w' \<Rightarrow> w')
                        in Returned () (inc_and_print w3)))))"

definition file_move :: "settings \<Rightarrow> string \<Rightarrow> string list \<Rightarrow> world \<Rightarrow> (string list) outcome" where
  "file_move st destination fls w =
     (case for_each (file_move_item st destination) fls (start (length fls) w) of
        Raised e w' \<Rightarrow> Raised e w'
      | Returned u w' \<Rightarrow> Returned fls w')"


section \<open>Observations and example inputs\<close>

definition returned :: "'a outcome \<Rightarrow> 'a option" where
  "returned r = (case r of Returned x w \<Rightarrow> Some x | Raised e w \<Rightarrow> None)"

definition raised :: "'a outcome \<Rightarrow> exn option" where
  "raised r = (case r of Returned x w \<Rightarrow> None | Raised e w \<Rightarrow> Some e)"

definition world_of :: "'a outcome \<Rightarrow> world" where
  "world_of r = (case r of Returned x w \<Rightarrow> w | Raised e w \<Rightarrow> w)"

text \<open>
  The number of items whose iteration ran to its end: every iteration that began,
  less the one that raised.
\<close>

definition completed :: "'a outcome \<Rightarrow> nat" where
  "completed r =
     (case r of
        Returned x w \<Rightarrow> length (attempted w)
      | Raised e w \<Rightarrow> length (attempted w) - 1)"

definition example_settings :: settings where
  "example_settings =
     \<lparr>and_tags = literal '' & '', feature_tags = literal ''feat.'',
      feature2_tags = literal ''(feat. '', invalid_tags = literal ''(Official''\<rparr>"

definition song :: "string \<Rightarrow> mp3" where
  "song a = \<lparr>id3_tags = Some (empty_id3\<lparr>tag_artist := Some [a]\<rparr>), audio = [1, 2, 3],
             writable = True\<rparr>"

definition untagged :: mp3 where
  "untagged = \<lparr>id3_tags = None, audio = [4, 5], writable = True\<rparr>"

definition no_artist :: mp3 where
  "no_artist = \<lparr>id3_tags = Some empty_id3, audio = [6], writable = True\<rparr>"

definition read_only :: mp3 where
  "read_only = \<lparr>id3_tags = Some (empty_id3\<lparr>tag_artist := Some [''Artist A'']\<rparr>), audio = [7],
               writable = False\<rparr>"

text \<open>
  A music folder \<open>/m\<close> with six files and its quarantine folder, and a
  destination \<open>/d\<close> that already has the folder of Artist A and, where the folder
  of the artist Blocked would be, a regular file.
\<close>

definition library :: world where
  "library =
     \<lparr>files = [''/m/BadFormat.mp3'' \<mapsto> song ''Artist A feat. Artist B'',
               ''/m/Artist A - Song One.mp3'' \<mapsto> song ''Artist A feat. Artist B'',
               ''/m/X - Y.mp3'' \<mapsto> untagged,
               ''/m/No - Artist.mp3'' \<mapsto> no_artist,
               ''/m/Read - Only.mp3'' \<mapsto> read_only,
               ''/m/No - Folder.mp3'' \<mapsto> song ''Blocked'',
               ''/d/Blocked'' \<mapsto> untagged],
      dirs = {''/m'', ''/m/_invalid'', ''/d'', ''/d/Artist A''},
      pg = ProgressBar 0, printed = [], attempted = [], tagged = [], quarantined = []\<rparr>"

text \<open>
  Three providers: one that finds nothing, one whose image download always fails, and
  one that finds a result with one image and delivers its bytes.
\<close>

definition no_results :: provider where
  "no_results = \<lparr>search = (\<lambda>a. []), fetch = (\<lambda>uri. Inr [9, 9])\<rparr>"

definition offline :: provider where
  "offline = \<lparr>search = (\<lambda>a. [Inr [''http://i/a.jpg'']]), fetch = (\<lambda>uri. Inl HTTPError)\<rparr>"

definition discogs :: provider where
  "discogs = \<lparr>search = (\<lambda>a. [Inr [''http://i/a.jpg'']]), fetch = (\<lambda>uri. Inr [9, 9])\<rparr>"

section \<open>Definitions for the properties\<close>

subsection \<open>The primary artist, in the words of the specification\<close>

text \<open>
  "Apply the and-pattern split first, then the feature-pattern split, taking the first
  segment of each split and trimming whitespace": the first segment of a split is the
  text before the first match, or the whole string when nothing matches.
\<close>

definition first_segment :: "pattern \<Rightarrow> string \<Rightarrow> string" where
  "first_segment p s = strip (case p s of [] \<Rightarrow> s | (a, b) # ms \<Rightarrow> take a s)"

definition primary_artist :: "settings \<Rightarrow> string \<Rightarrow> string" where
  "primary_artist st a = first_segment (feature_tags st) (first_segment (and_tags st) a)"

subsection \<open>Copy and move as one operation with a final action\<close>

text \<open>
  What file_copy and file_move have in common, stated once: read the artist, derive the
  primary artist, make sure its folder exists in the destination, then apply the final
  action (the copy or the move) to the file and the path of its basename in that
  folder; what the final action raises is dropped.
\<close>

definition to_destination ::
  "(string \<Rightarrow> string \<Rightarrow> world \<Rightarrow> unit outcome) \<Rightarrow> settings \<Rightarrow> string \<Rightarrow> string \<Rightarrow> world \<Rightarrow> unit outcome" where
  "to_destination action st destination file w0 =
     (let w = begin_item file w0
      in case EasyID3 file w of
           Raised e w' \<Rightarrow> Raised e w'
         | Returned tag_list w1 \<Rightarrow>
             (case first_artist tag_list of
                Inl e \<Rightarrow> Raised e w1
              | Inr a0 \<Rightarrow>
                  (let target = os_path_join3 destination (primary_artist st a0)
                                  (os_path_basename file)
                   in case mkdir_exist_ok (os_path_join destination (primary_artist st a0)) w1 of
                        Raised e w' \<Rightarrow> Raised e w'
                      | Returned u w2 \<Rightarrow>
                          Returned () (inc_and_print (world_of (action file target w2))))))"

subsection \<open>Predicates for the batch properties\<close>

text \<open>The artist tag of a file can be read: the file is on disk, has a tag container, and
  the container has a first artist.\<close>

definition artist_readable :: "world \<Rightarrow> string \<Rightarrow> bool" where
  "artist_readable w file =
     (case files w file of
        None \<Rightarrow> False
      | Some m \<Rightarrow>
          (case id3_tags m of
             None \<Rightarrow> False
           | Some t \<Rightarrow> \<not> isl (first_artist t)))"

text \<open>
  The progress output of a run of \<open>n\<close> files is in order: the counts printed are
  0, 1, ... up to the number of completed items, each with the total \<open>n\<close>; the
  bar's count is that number, and it is at most \<open>n\<close>.
\<close>

definition progress_ok :: "nat \<Rightarrow> 'a outcome \<Rightarrow> bool" where
  "progress_ok n r =
     (printed (world_of r) = map (\<lambda>k. (k, n)) [0..<Suc (completed r)]
      \<and> count (pg (world_of r)) = completed r
      \<and> completed r \<le> n)"

text \<open>The same, as an invariant of the world between two iterations.\<close>

definition progress_inv :: "nat \<Rightarrow> world \<Rightarrow> bool" where
  "progress_inv n w =
     (printed w = map (\<lambda>k. (k, n)) [0..<Suc (count (pg w))]
      \<and> total (pg w) = n
      \<and> count (pg w) = length (attempted w))"

text \<open>
  What one iteration does to the progress bar and to the record of attempts: an
  iteration that returns has advanced and printed once, one that raises has not.
\<close>

definition item_progress :: "string \<Rightarrow> world \<Rightarrow> 'a outcome \<Rightarrow> bool" where
  "item_progress file w r =
     (case r of
        Returned x w' \<Rightarrow>
          pg w' = (pg w)\<lparr>count := Suc (count (pg w))\<rparr>
          \<and> printed w' = printed w @ [(Suc (count (pg w)), total (pg w))]
          \<and> attempted w' = attempted w @ [file]
      | Raised e w' \<Rightarrow>
          pg w' = pg w \<and> printed w' = printed w \<and> attempted w' = attempted w @ [file])"

section \<open>The claims\<close>

subsection \<open>Retagging returns a file it never visited\<close>

text \<open>
  C1. The claim: every file in the list that id3_correct returns has had its
  operation attempted exactly once. The code removes a quarantined file from the list
  it is iterating, so the file after it is never visited and yet stays in the list: on
  the list of \<open>/m/BadFormat.mp3\<close> and \<open>/m/Artist A - Song One.mp3\<close> the call returns
  the second file, which was never attempted; it is neither renamed nor tagged.
\<close>

theorem id3_correct_returns_unattempted_file:
  "returned (id3_correct example_settings ''/m''
       [''/m/BadFormat.mp3'', ''/m/Artist A - Song One.mp3''] library)
     = Some [''/m/Artist A - Song One.mp3'']
   \<and> attempted (world_of (id3_correct example_settings ''/m''
       [''/m/BadFormat.mp3'', ''/m/Artist A - Song One.mp3''] library))
     = [''/m/BadFormat.mp3'']
   \<and> tagged (world_of (id3_correct example_settings ''/m''
       [''/m/BadFormat.mp3'', ''/m/Artist A - Song One.mp3''] library)) = []
   \<and> files (world_of (id3_correct example_settings ''/m''
       [''/m/BadFormat.mp3'', ''/m/Artist A - Song One.mp3''] library))
       ''/m/Artist A - Song One.mp3''
     = Some (song ''Artist A feat. Artist B'')"
  by code_simp

subsection \<open>The primary artist\<close>

lemma re_split_not_empty: "re_split p s \<noteq> []"
  by (cases "p s") (auto simp: re_split_def)

lemma hd_re_split: "strip (hd (re_split p s)) = first_segment p s"
  by (cases "p s") (auto simp: re_split_def first_segment_def)

text \<open>
  C6. The three actions that read the artist from the tags derive the primary artist in
  the same way: the first segment of the split on the and-pattern, trimmed, then the
  first segment of the split of that on the feature-pattern, trimmed. With the
  feature-pattern \<^verbatim>\<open>r"feat\."\<close> (and an and-pattern that finds nothing in it) the
  artist "Artist A feat. Artist B" gives "Artist A".
\<close>

theorem primary_artist_derivation:
  "get_artwork_artist st t = file_copy_artist st t
   \<and> file_move_artist st t = file_copy_artist st t
   \<and> (first_artist t = Inr a \<longrightarrow> file_copy_artist st t = Inr (primary_artist st a))
   \<and> (feature_tags st = literal ''feat.'' \<and> and_tags st ''Artist A feat. Artist B'' = []
        \<longrightarrow> primary_artist st ''Artist A feat. Artist B'' = ''Artist A'')"
proof -
  have same: "get_artwork_artist st t = file_copy_artist st t"
    "file_move_artist st t = file_copy_artist st t"
    by (simp_all add: get_artwork_artist_def file_copy_artist_def file_move_artist_def)
  have derive: "first_artist t = Inr a \<longrightarrow> file_copy_artist st t = Inr (primary_artist st a)"
    by (simp add: file_copy_artist_def primary_artist_def hd_re_split)
  have example: "feature_tags st = literal ''feat.'' \<and> and_tags st ''Artist A feat. Artist B'' = []
        \<longrightarrow> primary_artist st ''Artist A feat. Artist B'' = ''Artist A''"
  proof (intro impI, elim conjE)
    assume f: "feature_tags st = literal ''feat.''"
      and a: "and_tags st ''Artist A feat. Artist B'' = []"
    have 1: "first_segment (and_tags st) ''Artist A feat. Artist B'' = ''Artist A feat. Artist B''"
      by (simp add: first_segment_def a strip_def isspace_def)
    have 2: "first_segment (literal ''feat.'') ''Artist A feat. Artist B'' = ''Artist A''"
      by code_simp
    show "primary_artist st ''Artist A feat. Artist B'' = ''Artist A''"
      by (simp only: primary_artist_def 1 f 2)
  qed
  from same derive example show ?thesis by blast
qed

theorem primary_artist_derivation_witness:
  "first_artist (empty_id3\<lparr>tag_artist := Some [''Artist A feat. Artist B'']\<rparr>)
     = Inr ''Artist A feat. Artist B''
   \<and> feature_tags example_settings = literal ''feat.''
   \<and> and_tags example_settings ''Artist A feat. Artist B'' = []
   \<and> get_artwork_artist example_settings (empty_id3\<lparr>tag_artist := Some [''Artist A feat. Artist B'']\<rparr>)
     = Inr ''Artist A''
   \<and> file_move_artist example_settings (empty_id3\<lparr>tag_artist := Some [''Artist A feat. Artist B'']\<rparr>)
     = Inr ''Artist A''"
proof -
  have h1: "first_artist (empty_id3\<lparr>tag_artist := Some [''Artist A feat. Artist B'']\<rparr>)
     = Inr ''Artist A feat. Artist B''"
    by (simp add: first_artist_def)
  have h2: "feature_tags example_settings = literal ''feat.''"
    by (simp add: example_settings_def)
  have h3: "and_tags example_settings ''Artist A feat. Artist B'' = []"
    by code_simp
  show ?thesis
    using primary_artist_derivation [of example_settings
        "empty_id3\<lparr>tag_artist := Some [''Artist A feat. Artist B'']\<rparr>"
        "''Artist A feat. Artist B''"] h1 h2 h3
    by simp
qed

subsection \<open>Artwork is embedded entirely or not at all\<close>

lemma embed_artwork_files:
  "files (embed_artwork ds file t a w) = files w
   \<or> (\<exists>m uri content. files w file = Some m \<and> writable m \<and> fetch ds uri = Inr content
        \<and> files (embed_artwork ds file t a w)
            = (files w)(file \<mapsto> m\<lparr>id3_tags := Some (tags_add t (APIC (after_last_dot uri) content))\<rparr>))"
  by (auto simp: embed_artwork_def Let_def save_def fetch_image_def
           split: sum.splits option.splits if_splits prod.splits)

lemma embed_artwork_rest:
  "dirs (embed_artwork ds file t a w) = dirs w"
  "pg (embed_artwork ds file t a w) = pg w"
  "printed (embed_artwork ds file t a w) = printed w"
  "attempted (embed_artwork ds file t a w) = attempted w"
  "tagged (embed_artwork ds file t a w) = tagged w"
  "quarantined (embed_artwork ds file t a w) = quarantined w"
  by (auto simp: embed_artwork_def Let_def save_def
           split: sum.splits option.splits if_splits prod.splits)

lemma embed_artwork_no_image:
  "fetch_image ds (search ds a) 0 = Inl e0 \<Longrightarrow> fetch_image ds (search ds a) 1 = Inl e1
   \<Longrightarrow> embed_artwork ds file t a w = w"
  by (simp add: embed_artwork_def)

lemma embed_artwork_read_only:
  "files w file = Some m \<Longrightarrow> \<not> writable m \<Longrightarrow> embed_artwork ds file t a w = w"
  by (auto simp: embed_artwork_def Let_def save_def split: sum.splits prod.splits)

lemma fetch_image_no_results: "search ds a = [] \<Longrightarrow> fetch_image ds (search ds a) i = Inl IndexError"
  by (simp add: fetch_image_def image_uri_def)

lemma fetch_image_fetch_error:
  assumes "\<forall>uri. isl (fetch ds uri)"
  shows "isl (fetch_image ds rs i)"
proof (cases "image_uri rs i")
  case (Inl e)
  then show ?thesis by (simp add: fetch_image_def)
next
  case (Inr u)
  with assms [rule_format, of u] show ?thesis
    by (cases "fetch ds u") (simp_all add: fetch_image_def)
qed

lemma get_artwork_item_cases:
  "(\<exists>e. get_artwork_item ds st file w = Raised e (begin_item file w))
   \<or> (\<exists>m t a. files w file = Some m \<and> id3_tags m = Some t
         \<and> get_artwork_artist st t = Inr a
         \<and> get_artwork_item ds st file w
             = Returned () (inc_and_print (embed_artwork ds file t a (begin_item file w))))"
  by (auto simp: get_artwork_item_def MP3_def EasyID3_def add_tags_def Let_def begin_item_def
           split: option.splits sum.splits)

text \<open>
  C5. Fetch-and-embed-artwork is all or nothing for the file on disk: after the item,
  either every file is as before, or the one file has been saved with the fetched
  picture added to the container it had. In particular the files are unchanged when
  the search has no results, when the download fails, and when the save fails.
\<close>

theorem get_artwork_item_all_or_nothing:
  "(files (world_of (get_artwork_item ds st file w)) = files w
    \<or> (\<exists>m t uri content.
          files w file = Some m \<and> id3_tags m = Some t \<and> fetch ds uri = Inr content
          \<and> files (world_of (get_artwork_item ds st file w))
              = (files w)(file \<mapsto> m\<lparr>id3_tags := Some (tags_add t (APIC (after_last_dot uri) content))\<rparr>)))
   \<and> ((\<forall>a. search ds a = []) \<longrightarrow> files (world_of (get_artwork_item ds st file w)) = files w)
   \<and> ((\<forall>uri. isl (fetch ds uri)) \<longrightarrow> files (world_of (get_artwork_item ds st file w)) = files w)
   \<and> ((\<forall>m. files w file = Some m \<longrightarrow> \<not> writable m)
        \<longrightarrow> files (world_of (get_artwork_item ds st file w)) = files w)"
proof -
  let ?r = "get_artwork_item ds st file w"
  let ?w = "begin_item file w"
  have fw: "files ?w = files w"
    by (simp add: begin_item_def)
  from get_artwork_item_cases [of ds st "file" w]
  consider (raise) e where "?r = Raised e ?w"
    | (finished) m t a where "files w file = Some m" "id3_tags m = Some t"
        "?r = Returned () (inc_and_print (embed_artwork ds file t a ?w))"
    by blast
  then show ?thesis
  proof cases
    case raise
    then show ?thesis by (simp add: world_of_def fw)
  next
    case finished
    have wo: "files (world_of ?r) = files (embed_artwork ds file t a ?w)"
      by (simp add: finished(3) world_of_def inc_and_print_def pg_print_def)
    have all_or_nothing: "files (world_of ?r) = files w
      \<or> (\<exists>m t uri content.
          files w file = Some m \<and> id3_tags m = Some t \<and> fetch ds uri = Inr content
          \<and> files (world_of ?r)
              = (files w)(file \<mapsto> m\<lparr>id3_tags := Some (tags_add t (APIC (after_last_dot uri) content))\<rparr>))"
      using embed_artwork_files [of ds "file" t a ?w] finished(1,2)
      by (auto simp: wo fw)
    have no_results: "(\<forall>a. search ds a = []) \<longrightarrow> files (world_of ?r) = files w"
    proof
      assume "\<forall>a. search ds a = []"
      then have "search ds a = []" by simp
      then have "fetch_image ds (search ds a) 0 = Inl IndexError"
          "fetch_image ds (search ds a) 1 = Inl IndexError"
        by (rule fetch_image_no_results)+
      then show "files (world_of ?r) = files w"
        using embed_artwork_no_image [of ds a IndexError IndexError "file" t ?w]
        by (simp add: wo fw)
    qed
    have fetch_error: "(\<forall>uri. isl (fetch ds uri)) \<longrightarrow> files (world_of ?r) = files w"
    proof
      assume "\<forall>uri. isl (fetch ds uri)"
      then have "isl (fetch_image ds (search ds a) 0)" "isl (fetch_image ds (search ds a) 1)"
        by (simp_all add: fetch_image_fetch_error)
      then obtain e0 e1 where "fetch_image ds (search ds a) 0 = Inl e0"
          "fetch_image ds (search ds a) 1 = Inl e1"
        by (auto simp: isl_def)
      then show "files (world_of ?r) = files w"
        using embed_artwork_no_image [of ds a e0 e1 "file" t ?w] by (simp add: wo fw)
    qed
    have save_error: "(\<forall>m. files w file = Some m \<longrightarrow> \<not> writable m)
        \<longrightarrow> files (world_of ?r) = files w"
      using embed_artwork_read_only [of ?w "file" m ds t a] finished(1)
      by (auto simp: wo fw)
    from all_or_nothing no_results fetch_error save_error show ?thesis
      by blast
  qed
qed



theorem get_artwork_item_all_or_nothing_witness:
  "(\<forall>a. search no_results a = [])
   \<and> files (world_of (get_artwork_item no_results example_settings ''/m/BadFormat.mp3'' library))
       = files library
   \<and> (\<forall>uri. isl (fetch offline uri))
   \<and> files (world_of (get_artwork_item offline example_settings ''/m/BadFormat.mp3'' library))
       = files library
   \<and> files library ''/m/Read - Only.mp3'' = Some read_only \<and> writable read_only = False
   \<and> files (world_of (get_artwork_item discogs example_settings ''/m/Read - Only.mp3'' library))
       = files library"
proof -
  have h1: "\<forall>a. search no_results a = []"
    by (simp add: no_results_def)
  have h2: "\<forall>uri. isl (fetch offline uri)"
    by (simp add: offline_def)
  have h3: "files library ''/m/Read - Only.mp3'' = Some read_only"
    by (simp add: library_def)
  have h4: "writable read_only = False"
    by (simp add: read_only_def)
  from h3 h4 have h5: "\<forall>m. files library ''/m/Read - Only.mp3'' = Some m \<longrightarrow> \<not> writable m"
    by simp
  show ?thesis
    using get_artwork_item_all_or_nothing [of no_results example_settings "''/m/BadFormat.mp3''" library]
      get_artwork_item_all_or_nothing [of offline example_settings "''/m/BadFormat.mp3''" library]
      get_artwork_item_all_or_nothing [of discogs example_settings "''/m/Read - Only.mp3''" library]
      h1 h2 h3 h4 h5
    by blast
qed

lemma get_artwork_item_embeds_example:
  "files (world_of (get_artwork_item discogs example_settings ''/m/BadFormat.mp3'' library)) ''/m/BadFormat.mp3''
   = Some ((song ''Artist A feat. Artist B'')\<lparr>id3_tags := Some (empty_id3\<lparr>tag_artist := Some [''Artist A feat. Artist B''],
        apic := [(''Cover'', APIC ''jpg'' [9, 9])]\<rparr>)\<rparr>)"
  by code_simp

subsection \<open>Retagging one file: tagged or quarantined\<close>

lemma split_song: "re_split (literal '' - '') ''Artist A - Song One.mp3'' = [''Artist A'', ''Song One.mp3'']"
  by code_simp

lemma strip_artist_a: "strip ''Artist A'' = ''Artist A''"
  by code_simp

lemma strip_song_one: "strip (drop_last4 ''Song One.mp3'') = ''Song One''"
  by code_simp

text \<open>
  C7. Retagging a file named "Artist A - Song One.mp3", whose name the feature-tag
  normalisation leaves alone and which matches no invalid pattern, sets the tag artist
  to "Artist A" and the tag title to "Song One" and classifies the file as tagged. The
  file is on disk with a tag container and can be written: these are the conditions
  under which the tag library reads and saves it.
\<close>

theorem id3_item_tags_artist_and_title:
  assumes name: "os_path_split file = (head, ''Artist A - Song One.mp3'')"
      "os_path_join head ''Artist A - Song One.mp3'' = file"
    and unaffected:
      "re_sub (feature_tags st) '' ft. '' ''Artist A - Song One.mp3'' = ''Artist A - Song One.mp3''"
      "re_sub (feature2_tags st) ''(ft. '' ''Artist A - Song One.mp3'' = ''Artist A - Song One.mp3''"
    and valid: "re_search (invalid_tags st) ''Artist A - Song One.mp3'' = False"
    and on_disk: "files w file = Some m" "id3_tags m = Some t" "writable m"
  shows "\<exists>w'. id3_item st source file fls w = Returned fls w'
           \<and> files w' = (files w)(file \<mapsto> m\<lparr>id3_tags :=
                 Some (t\<lparr>tag_artist := Some [''Artist A''], tag_title := Some [''Song One'']\<rparr>)\<rparr>)
           \<and> tagged w' = tagged w @ [file] \<and> quarantined w' = quarantined w"
  using assms
  by (simp add: id3_item_def Let_def begin_item_def os_rename_def EasyID3_def save_def
        split_song strip_artist_a strip_song_one inc_and_print_def pg_print_def)


theorem id3_item_tags_artist_and_title_witness:
  "os_path_split ''/m/Artist A - Song One.mp3'' = (''/m'', ''Artist A - Song One.mp3'')
   \<and> os_path_join ''/m'' ''Artist A - Song One.mp3'' = ''/m/Artist A - Song One.mp3''
   \<and> re_sub (feature_tags example_settings) '' ft. '' ''Artist A - Song One.mp3''
       = ''Artist A - Song One.mp3''
   \<and> re_sub (feature2_tags example_settings) ''(ft. '' ''Artist A - Song One.mp3''
       = ''Artist A - Song One.mp3''
   \<and> re_search (invalid_tags example_settings) ''Artist A - Song One.mp3'' = False
   \<and> files library ''/m/Artist A - Song One.mp3'' = Some (song ''Artist A feat. Artist B'')
   \<and> id3_tags (song ''Artist A feat. Artist B'')
       = Some (empty_id3\<lparr>tag_artist := Some [''Artist A feat. Artist B'']\<rparr>)
   \<and> writable (song ''Artist A feat. Artist B'')
   \<and> (\<exists>w'. id3_item example_settings ''/m'' ''/m/Artist A - Song One.mp3''
               [''/m/Artist A - Song One.mp3''] library
             = Returned [''/m/Artist A - Song One.mp3''] w'
           \<and> files w' ''/m/Artist A - Song One.mp3''
               = Some ((song ''Artist A feat. Artist B'')\<lparr>id3_tags :=
                   Some (empty_id3\<lparr>tag_artist := Some [''Artist A''],
                                     tag_title := Some [''Song One'']\<rparr>)\<rparr>)
           \<and> tagged w' = tagged library @ [''/m/Artist A - Song One.mp3''])"
proof -
  have h1: "os_path_split ''/m/Artist A - Song One.mp3'' = (''/m'', ''Artist A - Song One.mp3'')"
    by code_simp
  have h2: "os_path_join ''/m'' ''Artist A - Song One.mp3'' = ''/m/Artist A - Song One.mp3''"
    by code_simp
  have h3: "re_sub (feature_tags example_settings) '' ft. '' ''Artist A - Song One.mp3''
       = ''Artist A - Song One.mp3''"
    by code_simp
  have h4: "re_sub (feature2_tags example_settings) ''(ft. '' ''Artist A - Song One.mp3''
       = ''Artist A - Song One.mp3''"
    by code_simp
  have h5: "re_search (invalid_tags example_settings) ''Artist A - Song One.mp3'' = False"
    by code_simp
  have h6: "files library ''/m/Artist A - Song One.mp3'' = Some (song ''Artist A feat. Artist B'')"
    by (simp add: library_def)
  have h7: "id3_tags (song ''Artist A feat. Artist B'')
       = Some (empty_id3\<lparr>tag_artist := Some [''Artist A feat. Artist B'']\<rparr>)"
    by (simp add: song_def)
  have h8: "writable (song ''Artist A feat. Artist B'')"
    by (simp add: song_def)
  show ?thesis
    using id3_item_tags_artist_and_title [OF h1 h2 h3 h4 h5 h6 h7 h8, of "''/m''"
        "[''/m/Artist A - Song One.mp3'']"] h1 h2 h3 h4 h5 h6 h7 h8
    by auto
qed

lemma id3_correct_tags_example:
  "returned (id3_correct example_settings ''/m'' [''/m/Artist A - Song One.mp3''] library)
     = Some [''/m/Artist A - Song One.mp3'']
   \<and> tagged (world_of (id3_correct example_settings ''/m'' [''/m/Artist A - Song One.mp3''] library))
     = [''/m/Artist A - Song One.mp3'']
   \<and> quarantined (world_of (id3_correct example_settings ''/m'' [''/m/Artist A - Song One.mp3''] library))
     = []
   \<and> files (world_of (id3_correct example_settings ''/m'' [''/m/Artist A - Song One.mp3''] library))
       ''/m/Artist A - Song One.mp3''
     = Some ((song ''Artist A feat. Artist B'')\<lparr>id3_tags :=
                   Some (empty_id3\<lparr>tag_artist := Some [''Artist A''],
                                     tag_title := Some [''Song One'']\<rparr>)\<rparr>)"
  by code_simp

lemma dirname_quarantined:
  "os_path_dirname (os_path_join3 source ''_invalid'' ''BadFormat.mp3'')
     = os_path_join source ''_invalid''"
  by (simp add: os_path_dirname_def os_path_join3_def os_path_join_def os_path_split_def Let_def)

lemma split_bad: "re_split (literal '' - '') ''BadFormat.mp3'' = [''BadFormat.mp3'']"
  by code_simp

text \<open>
  C8. Retagging a file named "BadFormat.mp3" (no \<open>' - '\<close> separator, a name the
  normalisation leaves alone) quarantines it: the file is moved to the same basename in
  the \<open>_invalid\<close> folder of the source directory, with the content and tags it had,
  it is removed from the list, nothing is tagged, and nothing is raised.
\<close>

theorem id3_item_quarantines_bad_format:
  assumes name: "os_path_split file = (head, ''BadFormat.mp3'')"
      "os_path_join head ''BadFormat.mp3'' = file"
    and unaffected:
      "re_sub (feature_tags st) '' ft. '' ''BadFormat.mp3'' = ''BadFormat.mp3''"
      "re_sub (feature2_tags st) ''(ft. '' ''BadFormat.mp3'' = ''BadFormat.mp3''"
    and on_disk: "files w file = Some m"
    and folder: "os_path_join source ''_invalid'' \<in> dirs w"
      "os_path_join3 source ''_invalid'' ''BadFormat.mp3'' \<notin> dirs w"
    and listed: "file \<in> set fls"
  shows "\<exists>w'. id3_item st source file fls w = Returned (remove1 file fls) w'
           \<and> files w' = ((files w)(file := None))
                 (os_path_join3 source ''_invalid'' ''BadFormat.mp3'' \<mapsto> m)
           \<and> dirs w' = dirs w
           \<and> quarantined w' = quarantined w @ [file] \<and> tagged w' = tagged w"
  using assms
  by (auto simp: id3_item_def Let_def begin_item_def os_rename_def split_bad
        dirname_quarantined inc_and_print_def pg_print_def)


theorem id3_item_quarantines_bad_format_witness:
  "os_path_split ''/m/BadFormat.mp3'' = (''/m'', ''BadFormat.mp3'')
   \<and> os_path_join ''/m'' ''BadFormat.mp3'' = ''/m/BadFormat.mp3''
   \<and> re_sub (feature_tags example_settings) '' ft. '' ''BadFormat.mp3'' = ''BadFormat.mp3''
   \<and> re_sub (feature2_tags example_settings) ''(ft. '' ''BadFormat.mp3'' = ''BadFormat.mp3''
   \<and> files library ''/m/BadFormat.mp3'' = Some (song ''Artist A feat. Artist B'')
   \<and> os_path_join ''/m'' ''_invalid'' \<in> dirs library
   \<and> os_path_join3 ''/m'' ''_invalid'' ''BadFormat.mp3'' \<notin> dirs library
   \<and> ''/m/BadFormat.mp3'' \<in> set [''/m/BadFormat.mp3'']
   \<and> (\<exists>w'. id3_item example_settings ''/m'' ''/m/BadFormat.mp3'' [''/m/BadFormat.mp3''] library
             = Returned [] w'
           \<and> files w' ''/m/_invalid/BadFormat.mp3'' = Some (song ''Artist A feat. Artist B'')
           \<and> files w' ''/m/BadFormat.mp3'' = None
           \<and> quarantined w' = quarantined library @ [''/m/BadFormat.mp3'']
           \<and> tagged w' = tagged library)"
proof -
  have h1: "os_path_split ''/m/BadFormat.mp3'' = (''/m'', ''BadFormat.mp3'')"
    by code_simp
  have h2: "os_path_join ''/m'' ''BadFormat.mp3'' = ''/m/BadFormat.mp3''"
    by code_simp
  have h3: "re_sub (feature_tags example_settings) '' ft. '' ''BadFormat.mp3'' = ''BadFormat.mp3''"
    by code_simp
  have h4: "re_sub (feature2_tags example_settings) ''(ft. '' ''BadFormat.mp3'' = ''BadFormat.mp3''"
    by code_simp
  have h5: "files library ''/m/BadFormat.mp3'' = Some (song ''Artist A feat. Artist B'')"
    by (simp add: library_def)
  have h6: "os_path_join ''/m'' ''_invalid'' \<in> dirs library"
    by code_simp
  have h7: "os_path_join3 ''/m'' ''_invalid'' ''BadFormat.mp3'' \<notin> dirs library"
    by code_simp
  have h8: "''/m/BadFormat.mp3'' \<in> set [''/m/BadFormat.mp3'']"
    by simp
  have target: "os_path_join3 ''/m'' ''_invalid'' ''BadFormat.mp3'' = ''/m/_invalid/BadFormat.mp3''"
    by code_simp
  show ?thesis
    using id3_item_quarantines_bad_format [OF h1 h2 h3 h4 h5 h6 h7 h8] h1 h2 h3 h4 h5 h6 h7
    by (auto simp: target)
qed

lemma id3_correct_quarantines_example:
  "returned (id3_correct example_settings ''/m'' [''/m/BadFormat.mp3''] library) = Some []
   \<and> quarantined (world_of (id3_correct example_settings ''/m'' [''/m/BadFormat.mp3''] library))
     = [''/m/BadFormat.mp3'']
   \<and> tagged (world_of (id3_correct example_settings ''/m'' [''/m/BadFormat.mp3''] library)) = []
   \<and> files (world_of (id3_correct example_settings ''/m'' [''/m/BadFormat.mp3''] library))
       ''/m/_invalid/BadFormat.mp3''
     = Some (song ''Artist A feat. Artist B'')
   \<and> files (world_of (id3_correct example_settings ''/m'' [''/m/BadFormat.mp3''] library))
       ''/m/BadFormat.mp3''
     = None"
  by code_simp

subsection \<open>Paths of the copy\<close>

lemma basename_no_slash: "CHR ''/'' \<notin> set (os_path_basename f)"
proof
  assume "CHR ''/'' \<in> set (os_path_basename f)"
  then have "CHR ''/'' \<in> set (takeWhile (\<lambda>c. c \<noteq> CHR ''/'') (rev f))"
    by (simp add: os_path_basename_def)
  then show False
    using set_takeWhileD by fastforce
qed

lemma takeWhile_rev_no_slash:
  assumes "CHR ''/'' \<notin> set b"
  shows "takeWhile (\<lambda>c. c \<noteq> CHR ''/'') (rev b @ CHR ''/'' # xs) = rev b"
proof -
  have "\<And>c. c \<in> set (rev b) \<Longrightarrow> c \<noteq> CHR ''/''"
    using assms by auto
  then have "takeWhile (\<lambda>c. c \<noteq> CHR ''/'') (rev b @ CHR ''/'' # xs)
      = rev b @ takeWhile (\<lambda>c. c \<noteq> CHR ''/'') (CHR ''/'' # xs)"
    by (rule takeWhile_append2)
  then show ?thesis by simp
qed

lemma dropWhile_rev_no_slash:
  assumes "CHR ''/'' \<notin> set b"
  shows "dropWhile (\<lambda>c. c \<noteq> CHR ''/'') (rev b @ CHR ''/'' # xs) = CHR ''/'' # xs"
proof -
  have "\<And>c. c \<in> set (rev b) \<Longrightarrow> c \<noteq> CHR ''/''"
    using assms by auto
  then have "dropWhile (\<lambda>c. c \<noteq> CHR ''/'') (rev b @ CHR ''/'' # xs)
      = dropWhile (\<lambda>c. c \<noteq> CHR ''/'') (CHR ''/'' # xs)"
    by (rule dropWhile_append2)
  then show ?thesis by simp
qed

lemma dirname_join:
  assumes "x \<noteq> []" "last x \<noteq> CHR ''/''" "CHR ''/'' \<notin> set b"
  shows "os_path_dirname (os_path_join x b) = x"
proof -
  have b: "b = [] \<or> hd b \<noteq> CHR ''/''"
    using assms(3) by (cases b) auto
  then have j: "rev (os_path_join x b) = rev b @ CHR ''/'' # rev x"
    using assms(1,2) by (auto simp: os_path_join_def)
  have t: "takeWhile (\<lambda>c. c \<noteq> CHR ''/'') (rev (os_path_join x b)) = rev b"
    unfolding j using assms(3) by (rule takeWhile_rev_no_slash)
  have d: "dropWhile (\<lambda>c. c \<noteq> CHR ''/'') (rev (os_path_join x b)) = CHR ''/'' # rev x"
    unfolding j using assms(3) by (rule dropWhile_rev_no_slash)
  have h: "hd (rev x) \<noteq> CHR ''/''" "rev x \<noteq> []"
    using assms(1,2) by (simp_all add: hd_rev)
  then have dd: "dropWhile (\<lambda>c. c = CHR ''/'') (rev x) = rev x"
    by (cases "rev x") auto
  have xs: "\<exists>c \<in> set x. c \<noteq> CHR ''/''"
    using assms(1,2) last_in_set by blast
  show ?thesis
    using xs by (auto simp: os_path_dirname_def os_path_split_def Let_def t d dd)
qed

lemma basename_join:
  assumes "CHR ''/'' \<notin> set b"
  shows "os_path_basename (os_path_join x b) = b"
proof -
  have b: "b = [] \<or> hd b \<noteq> CHR ''/''"
    using assms by (cases b) auto
  have plain: "rev (takeWhile (\<lambda>c. c \<noteq> CHR ''/'') (rev b)) = b"
  proof -
    have "\<And>c. c \<in> set (rev b) \<Longrightarrow> c \<noteq> CHR ''/''"
      using assms by auto
    then have tw: "takeWhile (\<lambda>c. c \<noteq> CHR ''/'') (rev b) = rev b"
      by (simp add: takeWhile_eq_all_conv)
    show ?thesis unfolding tw by (rule rev_rev_ident)
  qed
  show ?thesis
  proof (cases "x = [] \<or> last x = CHR ''/''")
    case True
    then have j: "os_path_join x b = x @ b"
      using b by (auto simp: os_path_join_def)
    show ?thesis
    proof (cases "x = []")
      case True
      with j have "os_path_join x b = b" by simp
      then show ?thesis by (simp only: os_path_basename_def plain)
    next
      case False
      with True have "hd (rev x) = CHR ''/''" "rev x \<noteq> []"
        by (simp_all add: hd_rev)
      then obtain ys where rx: "rev x = CHR ''/'' # ys"
        by (cases "rev x") auto
      have "rev (os_path_join x b) = rev b @ rev x"
        unfolding j by (rule rev_append)
      then have "rev (os_path_join x b) = rev b @ CHR ''/'' # ys"
        unfolding rx .
      then show ?thesis
        using assms by (simp add: os_path_basename_def takeWhile_rev_no_slash)
    qed
  next
    case False
    then have j: "rev (os_path_join x b) = rev b @ CHR ''/'' # rev x"
      using b by (auto simp: os_path_join_def)
    show ?thesis
      using assms by (simp add: j os_path_basename_def takeWhile_rev_no_slash)
  qed
qed

lemma last_join:
  assumes "a \<noteq> []"
  shows "os_path_join d a \<noteq> [] \<and> last (os_path_join d a) = last a"
  using assms by (auto simp: os_path_join_def)


subsection \<open>Copying into an existing folder\<close>

lemma file_copy_artist_primary:
  "first_artist t = Inr a \<Longrightarrow> file_copy_artist st t = Inr (primary_artist st a)"
  by (simp add: file_copy_artist_def primary_artist_def hd_re_split)

lemma file_move_artist_primary:
  "first_artist t = Inr a \<Longrightarrow> file_move_artist st t = Inr (primary_artist st a)"
  by (simp add: file_move_artist_def primary_artist_def hd_re_split)

lemma mkdir_exist_ok_existing: "p \<in> dirs w \<Longrightarrow> mkdir_exist_ok p w = Returned () w"
  by (simp add: mkdir_exist_ok_def os_mkdir_def)

lemma shutil_copy2_dirs: "dirs (world_of (shutil_copy2 src dst w)) = dirs w"
  by (auto simp: shutil_copy2_def Let_def world_of_def split: option.splits)

lemma shutil_copy2_copies:
  assumes "files w src = Some m" "dst \<notin> dirs w" "dst \<noteq> src" "os_path_dirname dst \<in> dirs w"
    "\<forall>m'. files w dst = Some m' \<longrightarrow> writable m'"
  shows "shutil_copy2 src dst w = Returned () (w\<lparr>files := (files w)(dst \<mapsto> m)\<rparr>)"
  using assms by (auto simp: shutil_copy2_def Let_def split: option.splits)

text \<open>
  C9. Copying into a destination where the folder of the primary artist already exists
  raises nothing: the FileExistsError of the folder creation is swallowed and the
  directories stay as they are. The copy goes to the file's own basename in that
  folder, and when the copy itself can be done (a proper folder name, the target is
  not a directory, not the file itself and not a read-only file) the file's content is
  there afterwards.
\<close>

theorem file_copy_item_existing_folder:
  assumes on_disk: "files w file = Some m" "id3_tags m = Some t" "first_artist t = Inr a0"
    and folder: "os_path_join destination (primary_artist st a0) \<in> dirs w"
  shows "\<exists>w'. file_copy_item st destination file w = Returned () w' \<and> dirs w' = dirs w
     \<and> os_path_basename (os_path_join3 destination (primary_artist st a0) (os_path_basename file))
         = os_path_basename file
     \<and> (primary_artist st a0 \<noteq> [] \<and> last (primary_artist st a0) \<noteq> CHR ''/''
         \<and> os_path_join3 destination (primary_artist st a0) (os_path_basename file) \<notin> dirs w
         \<and> os_path_join3 destination (primary_artist st a0) (os_path_basename file) \<noteq> file
         \<and> (\<forall>m'. files w (os_path_join3 destination (primary_artist st a0) (os_path_basename file))
                    = Some m' \<longrightarrow> writable m')
         \<longrightarrow> files w' = (files w)
               (os_path_join3 destination (primary_artist st a0) (os_path_basename file) \<mapsto> m))"
proof -
  let ?w = "begin_item file w"
  let ?folder = "os_path_join destination (primary_artist st a0)"
  let ?target = "os_path_join3 destination (primary_artist st a0) (os_path_basename file)"
  let ?c = "shutil_copy2 file ?target ?w"
  have bw: "files ?w = files w" "dirs ?w = dirs w"
    by (simp_all add: begin_item_def)
  have read: "EasyID3 file ?w = Returned t ?w"
    using on_disk(1,2) by (simp add: EasyID3_def bw)
  have mk: "mkdir_exist_ok ?folder ?w = Returned () ?w"
    using folder by (simp add: mkdir_exist_ok_existing bw)
  have item: "file_copy_item st destination file w = Returned () (inc_and_print (world_of ?c))"
    by (simp add: file_copy_item_def Let_def read file_copy_artist_primary [OF on_disk(3)] mk
          world_of_def split: outcome.splits)
  have d: "dirs (inc_and_print (world_of ?c)) = dirs w"
    by (simp add: inc_and_print_def pg_print_def shutil_copy2_dirs bw)
  have base: "os_path_basename ?target = os_path_basename file"
    unfolding os_path_join3_def by (rule basename_join) (rule basename_no_slash)
  have copied: "files (inc_and_print (world_of ?c)) = (files w)(?target \<mapsto> m)"
    if ok: "primary_artist st a0 \<noteq> []" "last (primary_artist st a0) \<noteq> CHR ''/''"
      "?target \<notin> dirs w" "?target \<noteq> file" "\<forall>m'. files w ?target = Some m' \<longrightarrow> writable m'"
  proof -
    have "os_path_dirname ?target = ?folder"
      unfolding os_path_join3_def
      using last_join [OF ok(1), of destination] ok(2) basename_no_slash [of "file"]
      by (intro dirname_join) simp_all
    then have "os_path_dirname ?target \<in> dirs ?w"
      using folder by (simp add: bw)
    then have "?c = Returned () (?w\<lparr>files := (files ?w)(?target \<mapsto> m)\<rparr>)"
      using on_disk(1) ok(3,4,5) by (intro shutil_copy2_copies) (simp_all add: bw)
    then show ?thesis
      by (simp add: world_of_def inc_and_print_def pg_print_def bw)
  qed
  from item d base copied show ?thesis
    by blast
qed


theorem file_copy_item_existing_folder_witness:
  "files library ''/m/BadFormat.mp3'' = Some (song ''Artist A feat. Artist B'')
   \<and> id3_tags (song ''Artist A feat. Artist B'')
       = Some (empty_id3\<lparr>tag_artist := Some [''Artist A feat. Artist B'']\<rparr>)
   \<and> first_artist (empty_id3\<lparr>tag_artist := Some [''Artist A feat. Artist B'']\<rparr>)
       = Inr ''Artist A feat. Artist B''
   \<and> os_path_join ''/d'' (primary_artist example_settings ''Artist A feat. Artist B'') \<in> dirs library
   \<and> (\<exists>w'. file_copy_item example_settings ''/d'' ''/m/BadFormat.mp3'' library = Returned () w'
           \<and> dirs w' = dirs library
           \<and> files w' ''/d/Artist A/BadFormat.mp3'' = Some (song ''Artist A feat. Artist B'')
           \<and> files w' ''/m/BadFormat.mp3'' = Some (song ''Artist A feat. Artist B''))"
proof -
  let ?a = "primary_artist example_settings ''Artist A feat. Artist B''"
  have h1: "files library ''/m/BadFormat.mp3'' = Some (song ''Artist A feat. Artist B'')"
    by (simp add: library_def)
  have h2: "id3_tags (song ''Artist A feat. Artist B'')
       = Some (empty_id3\<lparr>tag_artist := Some [''Artist A feat. Artist B'']\<rparr>)"
    by (simp add: song_def)
  have h3: "first_artist (empty_id3\<lparr>tag_artist := Some [''Artist A feat. Artist B'']\<rparr>)
       = Inr ''Artist A feat. Artist B''"
    by (simp add: first_artist_def)
  have a: "?a = ''Artist A''"
    by code_simp
  have h4: "os_path_join ''/d'' ?a \<in> dirs library"
    unfolding a by code_simp
  have target: "os_path_join3 ''/d'' ?a (os_path_basename ''/m/BadFormat.mp3'')
      = ''/d/Artist A/BadFormat.mp3''"
    unfolding a by code_simp
  have free: "files library ''/d/Artist A/BadFormat.mp3'' = None"
    "''/d/Artist A/BadFormat.mp3'' \<notin> dirs library"
    by (simp_all add: library_def)
  from file_copy_item_existing_folder [OF h1 h2 h3 h4]
  obtain w' where r: "file_copy_item example_settings ''/d'' ''/m/BadFormat.mp3'' library
      = Returned () w'" "dirs w' = dirs library"
    and c: "?a \<noteq> [] \<and> last ?a \<noteq> CHR ''/''
         \<and> ''/d/Artist A/BadFormat.mp3'' \<notin> dirs library
         \<and> ''/d/Artist A/BadFormat.mp3'' \<noteq> ''/m/BadFormat.mp3''
         \<and> (\<forall>m'. files library ''/d/Artist A/BadFormat.mp3'' = Some m' \<longrightarrow> writable m')
         \<longrightarrow> files w' = (files library)
               (''/d/Artist A/BadFormat.mp3'' \<mapsto> song ''Artist A feat. Artist B'')"
    unfolding target by blast
  have "files w' = (files library)
               (''/d/Artist A/BadFormat.mp3'' \<mapsto> song ''Artist A feat. Artist B'')"
    using c free by (simp add: a)
  then have "files w' ''/d/Artist A/BadFormat.mp3'' = Some (song ''Artist A feat. Artist B'')"
      "files w' ''/m/BadFormat.mp3'' = Some (song ''Artist A feat. Artist B'')"
    using h1 by simp_all
  with r h1 h2 h3 h4 show ?thesis
    by blast
qed

subsection \<open>Copy and move\<close>

lemma to_destination_returns:
  assumes "files w file = Some m" "id3_tags m = Some t" "first_artist t = Inr a0"
    and "os_path_join destination (primary_artist st a0) \<in> dirs w
         \<or> files w (os_path_join destination (primary_artist st a0)) \<noteq> None
         \<or> os_path_dirname (os_path_join destination (primary_artist st a0)) \<in> dirs w"
  shows "\<exists>w'. to_destination action st destination file w = Returned () w'"
  using assms
  by (auto simp: to_destination_def Let_def begin_item_def EasyID3_def mkdir_exist_ok_def
        os_mkdir_def split: outcome.splits)

lemma file_copy_item_to_destination:
  "file_copy_item st destination file w = to_destination shutil_copy2 st destination file w"
  by (auto simp: file_copy_item_def to_destination_def Let_def file_copy_artist_def
        primary_artist_def hd_re_split world_of_def split: outcome.splits sum.splits)

lemma file_move_item_to_destination:
  "file_move_item st destination file w = to_destination shutil_move st destination file w"
  by (auto simp: file_move_item_def to_destination_def Let_def file_move_artist_def
        primary_artist_def hd_re_split world_of_def split: outcome.splits sum.splits)

lemma start_disk: "files (start n w) = files w" "dirs (start n w) = dirs w"
  by (simp_all add: start_def pg_print_def)

text \<open>
  C10. file_copy and file_move are the same operation up to the final action: both
  derive the same folder and target path from the tags and the settings and apply the
  copy, respectively the move, to it. Both return the list they were given; a file whose
  tags can be read and whose folder exists or can be made is in the returned list
  whether or not its copy or move raised.
\<close>

theorem copy_and_move_differ_in_action_only:
  "file_copy_item st destination file w = to_destination shutil_copy2 st destination file w
   \<and> file_move_item st destination file w = to_destination shutil_move st destination file w
   \<and> (returned (file_copy st destination fls w) = Some fls' \<longrightarrow> fls' = fls)
   \<and> (returned (file_move st destination fls w) = Some fls' \<longrightarrow> fls' = fls)
   \<and> (files w file = Some m \<and> id3_tags m = Some t \<and> first_artist t = Inr a0
        \<and> (os_path_join destination (primary_artist st a0) \<in> dirs w
            \<or> files w (os_path_join destination (primary_artist st a0)) \<noteq> None
            \<or> os_path_dirname (os_path_join destination (primary_artist st a0)) \<in> dirs w)
        \<longrightarrow> returned (file_copy st destination [file] w) = Some [file]
            \<and> returned (file_move st destination [file] w) = Some [file])"
proof -
  have lists: "returned (file_copy st destination fls w) = Some fls' \<longrightarrow> fls' = fls"
    "returned (file_move st destination fls w) = Some fls' \<longrightarrow> fls' = fls"
    by (auto simp: file_copy_def file_move_def returned_def split: outcome.splits)
  have single: "returned (file_copy st destination [file] w) = Some [file]
            \<and> returned (file_move st destination [file] w) = Some [file]"
    if "files w file = Some m \<and> id3_tags m = Some t \<and> first_artist t = Inr a0
        \<and> (os_path_join destination (primary_artist st a0) \<in> dirs w
            \<or> files w (os_path_join destination (primary_artist st a0)) \<noteq> None
            \<or> os_path_dirname (os_path_join destination (primary_artist st a0)) \<in> dirs w)"
  proof -
    from that have pre: "files (start 1 w) file = Some m" "id3_tags m = Some t"
      "first_artist t = Inr a0"
      "os_path_join destination (primary_artist st a0) \<in> dirs (start 1 w)
            \<or> files (start 1 w) (os_path_join destination (primary_artist st a0)) \<noteq> None
            \<or> os_path_dirname (os_path_join destination (primary_artist st a0)) \<in> dirs (start 1 w)"
      by (simp_all add: start_disk)
    from to_destination_returns [OF pre, of shutil_copy2]
    obtain wc where "file_copy_item st destination file (start 1 w) = Returned () wc"
      by (auto simp: file_copy_item_to_destination)
    moreover from to_destination_returns [OF pre, of shutil_move]
    obtain wm where "file_move_item st destination file (start 1 w) = Returned () wm"
      by (auto simp: file_move_item_to_destination)
    ultimately show ?thesis
      by (simp add: file_copy_def file_move_def returned_def)
  qed
  from file_copy_item_to_destination file_move_item_to_destination lists single show ?thesis
    by blast
qed

theorem copy_and_move_differ_in_action_only_witness:
  "returned (file_copy example_settings ''/d'' [''/m/No - Folder.mp3''] library)
     = Some [''/m/No - Folder.mp3'']
   \<and> returned (file_move example_settings ''/d'' [''/m/No - Folder.mp3''] library)
     = Some [''/m/No - Folder.mp3'']
   \<and> raised (shutil_copy2 ''/m/No - Folder.mp3'' ''/d/Blocked/No - Folder.mp3'' library)
     = Some FileNotFoundError
   \<and> raised (shutil_move ''/m/No - Folder.mp3'' ''/d/Blocked/No - Folder.mp3'' library)
     = Some FileNotFoundError
   \<and> file_copy_item example_settings ''/d'' ''/m/No - Folder.mp3'' library
     = to_destination shutil_copy2 example_settings ''/d'' ''/m/No - Folder.mp3'' library"
proof -
  have h: "files library ''/m/No - Folder.mp3'' = Some (song ''Blocked'')
      \<and> id3_tags (song ''Blocked'') = Some (empty_id3\<lparr>tag_artist := Some [''Blocked'']\<rparr>)
      \<and> first_artist (empty_id3\<lparr>tag_artist := Some [''Blocked'']\<rparr>) = Inr ''Blocked''
      \<and> (os_path_join ''/d'' (primary_artist example_settings ''Blocked'') \<in> dirs library
          \<or> files library (os_path_join ''/d'' (primary_artist example_settings ''Blocked'')) \<noteq> None
          \<or> os_path_dirname (os_path_join ''/d'' (primary_artist example_settings ''Blocked''))
              \<in> dirs library)"
    by code_simp
  have c: "raised (shutil_copy2 ''/m/No - Folder.mp3'' ''/d/Blocked/No - Folder.mp3'' library)
     = Some FileNotFoundError"
    by code_simp
  have m: "raised (shutil_move ''/m/No - Folder.mp3'' ''/d/Blocked/No - Folder.mp3'' library)
     = Some FileNotFoundError"
    by code_simp
  show ?thesis
    using copy_and_move_differ_in_action_only [of example_settings "''/d''"
        "''/m/No - Folder.mp3''" library "[''/m/No - Folder.mp3'']" "[''/m/No - Folder.mp3'']"
        "song ''Blocked''" "empty_id3\<lparr>tag_artist := Some [''Blocked'']\<rparr>" "''Blocked''"] h c m
    by blast
qed

subsection \<open>Progress\<close>

lemma os_rename_log:
  "os_rename a b w = Returned u w' \<Longrightarrow>
     pg w' = pg w \<and> printed w' = printed w \<and> attempted w' = attempted w
     \<and> tagged w' = tagged w \<and> quarantined w' = quarantined w"
  "os_rename a b w = Raised e w' \<Longrightarrow> w' = w"
  by (auto simp: os_rename_def split: option.splits if_splits)

lemma EasyID3_log:
  "EasyID3 f w = Returned t w' \<Longrightarrow> w' = w"
  "EasyID3 f w = Raised e w' \<Longrightarrow> w' = w"
  by (auto simp: EasyID3_def split: option.splits)

lemma save_log:
  "save f t w = Returned u w' \<Longrightarrow>
     pg w' = pg w \<and> printed w' = printed w \<and> attempted w' = attempted w
     \<and> tagged w' = tagged w \<and> quarantined w' = quarantined w"
  "save f t w = Raised e w' \<Longrightarrow> w' = w"
  by (auto simp: save_def split: option.splits if_splits)

lemma length_remove1_member: "x \<in> set xs \<Longrightarrow> Suc (length (remove1 x xs)) = length xs"
  using length_pos_if_in_set [of x xs] by (simp add: length_remove1)

lemma id3_item_returned:
  assumes "id3_item st source f fls w = Returned fls' w'"
  shows "pg w' = (pg w)\<lparr>count := Suc (count (pg w))\<rparr>
     \<and> printed w' = printed w @ [(Suc (count (pg w)), total (pg w))]
     \<and> attempted w' = attempted w @ [f]
     \<and> ((tagged w' = tagged w @ [f] \<and> quarantined w' = quarantined w \<and> fls' = fls)
        \<or> (tagged w' = tagged w \<and> quarantined w' = quarantined w @ [f]
            \<and> Suc (length fls') = length fls))"
  using assms
  by (auto simp: id3_item_def Let_def begin_item_def
        inc_and_print_def pg_print_def length_remove1_member
        split: prod.splits outcome.splits if_splits
        dest!: os_rename_log EasyID3_log save_log)

lemma id3_item_raised:
  assumes "id3_item st source f fls w = Raised e w'"
  shows "pg w' = pg w \<and> printed w' = printed w \<and> attempted w' = attempted w @ [f]"
  using assms
  by (auto simp: id3_item_def Let_def begin_item_def
        inc_and_print_def pg_print_def
        split: prod.splits outcome.splits if_splits
        dest!: os_rename_log EasyID3_log save_log)


lemma id3_item_progress: "item_progress f w (id3_item st source f fls w)"
proof (cases "id3_item st source f fls w")
  case (Returned fls' w')
  then show ?thesis
    using id3_item_returned [OF Returned] by (simp add: item_progress_def)
next
  case (Raised e w')
  then show ?thesis
    using id3_item_raised [OF Raised] by (simp add: item_progress_def)
qed

lemma progress_inv_step:
  assumes "progress_inv n w" "item_progress f w (Returned x w')"
  shows "progress_inv n w'" "count (pg w') = Suc (count (pg w))"
  using assms by (simp_all add: progress_inv_def item_progress_def)

lemma progress_ok_raised:
  assumes "progress_inv n w" "item_progress f w (Raised e w')" "count (pg w) \<le> n"
  shows "progress_ok n (Raised e w' :: 'a outcome)"
  using assms
  by (simp add: progress_inv_def item_progress_def progress_ok_def world_of_def completed_def)

lemma progress_ok_returned:
  assumes "progress_inv n w" "count (pg w) \<le> n"
  shows "progress_ok n (Returned x w)"
  using assms
  by (simp add: progress_inv_def progress_ok_def world_of_def completed_def)

lemma id3_loop_progress:
  "progress_inv n w \<Longrightarrow> count (pg w) + (length fls - i) \<le> n
   \<Longrightarrow> progress_ok n (id3_loop st source i fls w)"
proof (induction st source i fls w rule: id3_loop.induct)
  case (1 st source i fls w)
  show ?case
  proof (cases "i < length fls")
    case False
    then have "id3_loop st source i fls w = Returned fls w"
      by (subst id3_loop.simps) simp
    moreover have "count (pg w) \<le> n"
      using "1.prems"(2) by simp
    ultimately show ?thesis
      using progress_ok_returned [OF "1.prems"(1)] by simp
  next
    case True
    have ip: "item_progress (fls ! i) w (id3_item st source (fls ! i) fls w)"
      by (rule id3_item_progress)
    show ?thesis
    proof (cases "id3_item st source (fls ! i) fls w")
      case (Raised e w')
      then have "id3_loop st source i fls w = Raised e w'"
        using True by (subst id3_loop.simps) simp
      moreover have "count (pg w) \<le> n"
        using "1.prems"(2) by simp
      ultimately show ?thesis
        using progress_ok_raised [OF "1.prems"(1)] ip Raised by simp
    next
      case (Returned fls' w')
      then have loop: "id3_loop st source i fls w = id3_loop st source (Suc i) fls' w'"
        using True by (subst id3_loop.simps) simp
      have inv: "progress_inv n w'" and c: "count (pg w') = Suc (count (pg w))"
        using progress_inv_step [OF "1.prems"(1)] ip Returned by simp_all
      have "length fls' \<le> length fls"
        using Returned by (rule id3_item_length)
      then have "count (pg w') + (length fls' - Suc i) \<le> n"
        using "1.prems"(2) True c by simp
      then show ?thesis
        using "1.IH" [OF True Returned inv] loop by simp
    qed
  qed
qed

lemma for_each_progress:
  assumes body: "\<And>f w. item_progress f w (body f w)"
  shows "progress_inv n w \<Longrightarrow> count (pg w) + length fls \<le> n
     \<Longrightarrow> progress_ok n (for_each body fls w)"
proof (induction fls arbitrary: w)
  case Nil
  then show ?case
    using progress_ok_returned [of n w] by simp
next
  case (Cons f fls)
  show ?case
  proof (cases "body f w")
    case (Raised e w')
    moreover have "count (pg w) \<le> n"
      using Cons.prems(2) by simp
    ultimately show ?thesis
      using progress_ok_raised [OF Cons.prems(1)] body [of f w] by simp
  next
    case (Returned u w')
    have inv: "progress_inv n w'" and c: "count (pg w') = Suc (count (pg w))"
      using progress_inv_step [OF Cons.prems(1)] body [of f w] Returned by simp_all
    then have "count (pg w') + length fls \<le> n"
      using Cons.prems(2) by simp
    then show ?thesis
      using Cons.IH [OF inv] Returned by simp
  qed
qed

lemma progress_inv_start: "progress_inv n (start n w)" "count (pg (start n w)) = 0"
  by (simp_all add: progress_inv_def start_def pg_print_def ProgressBar_def)

lemma progress_ok_relabel:
  "progress_ok n r \<Longrightarrow>
   progress_ok n (case r of Raised e w' \<Rightarrow> Raised e w' | Returned u w' \<Rightarrow> Returned x w')"
  by (cases r) (simp_all add: progress_ok_def world_of_def completed_def)


lemma get_artwork_item_progress: "item_progress f w (get_artwork_item ds st f w)"
proof -
  from get_artwork_item_cases [of ds st f w]
  consider (raise) e where "get_artwork_item ds st f w = Raised e (begin_item f w)"
    | (finished) t a where "get_artwork_item ds st f w
        = Returned () (inc_and_print (embed_artwork ds f t a (begin_item f w)))"
    by blast
  then show ?thesis
  proof cases
    case raise
    then show ?thesis
      by (simp add: item_progress_def begin_item_def)
  next
    case finished
    then show ?thesis
      by (simp add: item_progress_def inc_and_print_def pg_print_def embed_artwork_rest
            begin_item_def)
  qed
qed

lemma shutil_copy2_log:
  "pg (world_of (shutil_copy2 src dst w)) = pg w"
  "printed (world_of (shutil_copy2 src dst w)) = printed w"
  "attempted (world_of (shutil_copy2 src dst w)) = attempted w"
  by (auto simp: shutil_copy2_def Let_def world_of_def split: option.splits)

lemma os_rename_world_log:
  "pg (world_of (os_rename src dst w)) = pg w"
  "printed (world_of (os_rename src dst w)) = printed w"
  "attempted (world_of (os_rename src dst w)) = attempted w"
  by (auto simp: os_rename_def world_of_def split: option.splits)

lemma os_unlink_log:
  "pg (world_of (os_unlink p w)) = pg w"
  "printed (world_of (os_unlink p w)) = printed w"
  "attempted (world_of (os_unlink p w)) = attempted w"
  by (auto simp: os_unlink_def world_of_def split: option.splits)

lemma shutil_move_log:
  "pg (world_of (shutil_move src dst w)) = pg w"
  "printed (world_of (shutil_move src dst w)) = printed w"
  "attempted (world_of (shutil_move src dst w)) = attempted w"
proof -
  let ?d = "if dst \<in> dirs w then os_path_join dst (os_path_basename src) else dst"
  have raised_same: "os_rename src ?d w = Raised e w' \<Longrightarrow> w' = w" for e w'
    by (auto simp: os_rename_def split: option.splits if_splits)
  have "pg (world_of (shutil_move src dst w)) = pg w
      \<and> printed (world_of (shutil_move src dst w)) = printed w
      \<and> attempted (world_of (shutil_move src dst w)) = attempted w"
  proof (cases "os_rename src ?d w")
    case (Returned u w')
    then show ?thesis
      using os_rename_world_log [of src ?d w]
      by (simp add: shutil_move_def Let_def world_of_def)
  next
    case (Raised e w')
    then have w': "w' = w" by (rule raised_same)
    show ?thesis
    proof (cases "shutil_copy2 src ?d w")
      case c: (Raised e' w'')
      then show ?thesis
        using Raised w' shutil_copy2_log [of src ?d w]
        by (simp add: shutil_move_def Let_def world_of_def)
    next
      case c: (Returned u w'')
      then show ?thesis
        using Raised w' shutil_copy2_log [of src ?d w] os_unlink_log [of src w'']
        by (simp add: shutil_move_def Let_def world_of_def)
    qed
  qed
  then show "pg (world_of (shutil_move src dst w)) = pg w"
    "printed (world_of (shutil_move src dst w)) = printed w"
    "attempted (world_of (shutil_move src dst w)) = attempted w"
    by simp_all
qed

lemma mkdir_exist_ok_log:
  "pg (world_of (mkdir_exist_ok p w)) = pg w"
  "printed (world_of (mkdir_exist_ok p w)) = printed w"
  "attempted (world_of (mkdir_exist_ok p w)) = attempted w"
  by (auto simp: mkdir_exist_ok_def os_mkdir_def world_of_def)

lemma to_destination_progress:
  assumes "\<And>s d w. pg (world_of (action s d w)) = pg w
      \<and> printed (world_of (action s d w)) = printed w
      \<and> attempted (world_of (action s d w)) = attempted w"
  shows "item_progress f w (to_destination action st destination f w)"
proof -
  let ?w = "begin_item f w"
  show ?thesis
  proof (cases "EasyID3 f ?w")
    case (Raised e w')
    then show ?thesis
      using EasyID3_log(2) [OF Raised]
      by (simp add: to_destination_def Let_def item_progress_def begin_item_def)
  next
    case (Returned t w1)
    then have w1: "w1 = ?w" by (rule EasyID3_log(1))
    show ?thesis
    proof (cases "first_artist t")
      case (Inl e)
      then show ?thesis
        using Returned w1
        by (simp add: to_destination_def Let_def item_progress_def begin_item_def)
    next
      case (Inr a0)
      let ?folder = "os_path_join destination (primary_artist st a0)"
      show ?thesis
      proof (cases "mkdir_exist_ok ?folder ?w")
        case m: (Raised e w')
        then show ?thesis
          using Returned w1 Inr mkdir_exist_ok_log [of ?folder ?w]
          by (simp add: to_destination_def Let_def item_progress_def begin_item_def world_of_def)
      next
        case m: (Returned u w2)
        then show ?thesis
          using Returned w1 Inr mkdir_exist_ok_log [of ?folder ?w]
            assms [of f "os_path_join3 destination (primary_artist st a0) (os_path_basename f)" w2]
          by (simp add: to_destination_def Let_def item_progress_def begin_item_def world_of_def
                inc_and_print_def pg_print_def)
      qed
    qed
  qed
qed

lemma file_copy_item_progress: "item_progress f w (file_copy_item st destination f w)"
  unfolding file_copy_item_to_destination
  by (rule to_destination_progress) (simp add: shutil_copy2_log)

lemma file_move_item_progress: "item_progress f w (file_move_item st destination f w)"
  unfolding file_move_item_to_destination
  by (rule to_destination_progress) (simp add: shutil_move_log)

text \<open>
  C4, as amended. In each of the four actions the progress bar advances and prints
  exactly once after each item whose iteration runs to its end, which includes an
  artwork item whose fetch or save failed and a copy or move that failed; an item that
  raises ends the batch without a print. The counts printed are 0 (before the first
  item), 1, 2, ... in order: after N completed items the count is N, and it never
  exceeds the number M of files.
\<close>

theorem progress_once_per_completed_item:
  "progress_ok (length fls) (get_artwork ds st fls w)
   \<and> progress_ok (length fls) (id3_correct st source fls w)
   \<and> progress_ok (length fls) (file_copy st destination fls w)
   \<and> progress_ok (length fls) (file_move st destination fls w)"
proof -
  have s: "progress_inv (length fls) (start (length fls) v)"
    "count (pg (start (length fls) v)) + length fls \<le> length fls" for v
    by (simp_all add: progress_inv_start)
  have "progress_ok (length fls) (for_each (get_artwork_item ds st) fls (start (length fls) w))"
    using get_artwork_item_progress s by (rule for_each_progress)
  then have 1: "progress_ok (length fls) (get_artwork ds st fls w)"
    unfolding get_artwork_def by (rule progress_ok_relabel)
  have 2: "progress_ok (length fls) (id3_correct st source fls w)"
    unfolding id3_correct_def Let_def using s by (intro id3_loop_progress) simp_all
  have "progress_ok (length fls)
      (for_each (file_copy_item st destination) fls (start (length fls) w))"
    using file_copy_item_progress s by (rule for_each_progress)
  then have 3: "progress_ok (length fls) (file_copy st destination fls w)"
    unfolding file_copy_def by (rule progress_ok_relabel)
  have "progress_ok (length fls)
      (for_each (file_move_item st destination) fls (start (length fls) w))"
    using file_move_item_progress s by (rule for_each_progress)
  then have 4: "progress_ok (length fls) (file_move st destination fls w)"
    unfolding file_move_def by (rule progress_ok_relabel)
  from 1 2 3 4 show ?thesis by blast
qed

text \<open>
  C4 as stated fails: the first file of this id3_correct batch has a valid name but no
  tag container, reading its tags raises, and nothing is printed after this failed
  item; the output is the initial print alone.
\<close>

theorem no_progress_after_failed_item:
  "raised (id3_correct example_settings ''/m''
       [''/m/X - Y.mp3'', ''/m/Artist A - Song One.mp3''] library) = Some ID3NoHeaderError
   \<and> attempted (world_of (id3_correct example_settings ''/m''
       [''/m/X - Y.mp3'', ''/m/Artist A - Song One.mp3''] library)) = [''/m/X - Y.mp3'']
   \<and> printed (world_of (id3_correct example_settings ''/m''
       [''/m/X - Y.mp3'', ''/m/Artist A - Song One.mp3''] library)) = [(0, 2)]"
  by code_simp


theorem progress_once_per_completed_item_witness:
  "progress_ok (length [''/m/BadFormat.mp3'', ''/m/Read - Only.mp3''])
     (get_artwork discogs example_settings [''/m/BadFormat.mp3'', ''/m/Read - Only.mp3''] library)
   \<and> printed (world_of (get_artwork discogs example_settings
       [''/m/BadFormat.mp3'', ''/m/Read - Only.mp3''] library)) = [(0, 2), (1, 2), (2, 2)]
   \<and> progress_ok (length [''/m/BadFormat.mp3'', ''/m/Read - Only.mp3''])
     (id3_correct example_settings ''/m'' [''/m/BadFormat.mp3'', ''/m/Read - Only.mp3''] library)
   \<and> printed (world_of (id3_correct example_settings ''/m''
       [''/m/BadFormat.mp3'', ''/m/Read - Only.mp3''] library)) = [(0, 2), (1, 2)]
   \<and> progress_ok (length [''/m/BadFormat.mp3'', ''/m/Read - Only.mp3''])
     (file_copy example_settings ''/d'' [''/m/BadFormat.mp3'', ''/m/Read - Only.mp3''] library)
   \<and> printed (world_of (file_copy example_settings ''/d''
       [''/m/BadFormat.mp3'', ''/m/Read - Only.mp3''] library)) = [(0, 2), (1, 2), (2, 2)]
   \<and> progress_ok (length [''/m/BadFormat.mp3'', ''/m/Read - Only.mp3''])
     (file_move example_settings ''/d'' [''/m/BadFormat.mp3'', ''/m/Read - Only.mp3''] library)
   \<and> printed (world_of (file_move example_settings ''/d''
       [''/m/BadFormat.mp3'', ''/m/Read - Only.mp3''] library)) = [(0, 2), (1, 2), (2, 2)]"
proof -
  have p: "printed (world_of (get_artwork discogs example_settings
       [''/m/BadFormat.mp3'', ''/m/Read - Only.mp3''] library)) = [(0, 2), (1, 2), (2, 2)]"
    "printed (world_of (id3_correct example_settings ''/m''
       [''/m/BadFormat.mp3'', ''/m/Read - Only.mp3''] library)) = [(0, 2), (1, 2)]"
    "printed (world_of (file_copy example_settings ''/d''
       [''/m/BadFormat.mp3'', ''/m/Read - Only.mp3''] library)) = [(0, 2), (1, 2), (2, 2)]"
    "printed (world_of (file_move example_settings ''/d''
       [''/m/BadFormat.mp3'', ''/m/Read - Only.mp3''] library)) = [(0, 2), (1, 2), (2, 2)]"
    by code_simp+
  show ?thesis
    using progress_once_per_completed_item [of "[''/m/BadFormat.mp3'', ''/m/Read - Only.mp3'']"
        discogs example_settings library "''/m''" "''/d''"] p
    by blast
qed

subsection \<open>Classification of the items of a retagging batch\<close>

lemma id3_loop_classifies:
  "id3_loop st source i fls w = Returned fls' w' \<Longrightarrow>
     length (attempted w') + length (tagged w) + length (quarantined w)
       = length (tagged w') + length (quarantined w') + length (attempted w)
     \<and> length (attempted w') \<le> length (attempted w) + (length fls - i)
     \<and> length fls' + length (quarantined w') = length fls + length (quarantined w)"
proof (induction st source i fls w rule: id3_loop.induct)
  case (1 st source i fls w)
  show ?case
  proof (cases "i < length fls")
    case False
    then have "id3_loop st source i fls w = Returned fls w"
      by (subst id3_loop.simps) simp
    with "1.prems" show ?thesis by simp
  next
    case True
    show ?thesis
    proof (cases "id3_item st source (fls ! i) fls w")
      case (Raised e w1)
      then have "id3_loop st source i fls w = Raised e w1"
        using True by (subst id3_loop.simps) simp
      with "1.prems" show ?thesis by simp
    next
      case (Returned fls1 w1)
      then have "id3_loop st source i fls w = id3_loop st source (Suc i) fls1 w1"
        using True by (subst id3_loop.simps) simp
      with "1.prems" have rest: "id3_loop st source (Suc i) fls1 w1 = Returned fls' w'"
        by simp
      note ih = "1.IH" [OF True Returned rest]
      note step = id3_item_returned [OF Returned]
      have len: "length fls1 \<le> length fls"
        using Returned by (rule id3_item_length)
      from step have a: "length (attempted w1) = Suc (length (attempted w))"
        by simp
      from step have tq: "length (tagged w1) + length (quarantined w1)
          = Suc (length (tagged w) + length (quarantined w))"
        by auto
      from step have fq: "length fls1 + length (quarantined w1) = length fls + length (quarantined w)"
        by auto
      show ?thesis
        using ih a tq fq len True by arith
    qed
  qed
qed

text \<open>
  C3, as amended. When id3_correct returns, every item that the loop attempted has
  exactly one of the two terminal classifications, tagged or quarantined (none is
  recorded as failed: a failing item ends the batch instead): the two counts add up to
  the number of attempted items, which is at most the number of input items; and the
  returned list has as many entries as the input less the quarantined ones.
\<close>

theorem id3_correct_classifies_attempted_items:
  assumes "id3_correct st source fls w = Returned fls' w'"
  shows "length (tagged w') + length (quarantined w') = length (attempted w')
     \<and> length (attempted w') \<le> length fls
     \<and> length fls' + length (quarantined w') = length fls"
proof -
  let ?w1 = "case os_mkdir (os_path_join source ''_invalid'') w of
               Returned u w' \<Rightarrow> w' | Raised e w' \<Rightarrow> w'"
  have "id3_loop st source 0 fls (start (length fls) ?w1) = Returned fls' w'"
    using assms by (simp add: id3_correct_def Let_def)
  from id3_loop_classifies [OF this] show ?thesis
    by (simp add: start_def pg_print_def)
qed

text \<open>
  C3 as stated fails: in this batch of two the first file cannot be read, the batch
  ends there, and the second file gets no classification; even with the first counted
  as failed the classified items are fewer than the input.
\<close>

theorem id3_correct_abort_leaves_item_unclassified:
  "raised (id3_correct example_settings ''/m''
       [''/m/X - Y.mp3'', ''/m/Artist A - Song One.mp3''] library) = Some ID3NoHeaderError
   \<and> attempted (world_of (id3_correct example_settings ''/m''
       [''/m/X - Y.mp3'', ''/m/Artist A - Song One.mp3''] library)) = [''/m/X - Y.mp3'']
   \<and> tagged (world_of (id3_correct example_settings ''/m''
       [''/m/X - Y.mp3'', ''/m/Artist A - Song One.mp3''] library)) = []
   \<and> quarantined (world_of (id3_correct example_settings ''/m''
       [''/m/X - Y.mp3'', ''/m/Artist A - Song One.mp3''] library)) = []
   \<and> length (tagged (world_of (id3_correct example_settings ''/m''
       [''/m/X - Y.mp3'', ''/m/Artist A - Song One.mp3''] library))) + 1
     + length (quarantined (world_of (id3_correct example_settings ''/m''
       [''/m/X - Y.mp3'', ''/m/Artist A - Song One.mp3''] library)))
     < length [''/m/X - Y.mp3'', ''/m/Artist A - Song One.mp3'']"
  by code_simp

theorem id3_correct_classifies_attempted_items_witness:
  "returned (id3_correct example_settings ''/m''
       [''/m/Artist A - Song One.mp3'', ''/m/BadFormat.mp3''] library)
     = Some [''/m/Artist A - Song One.mp3'']
   \<and> (\<exists>w'. id3_correct example_settings ''/m''
            [''/m/Artist A - Song One.mp3'', ''/m/BadFormat.mp3''] library
          = Returned [''/m/Artist A - Song One.mp3''] w'
        \<and> length (tagged w') + length (quarantined w') = length (attempted w')
        \<and> length (attempted w') \<le> length [''/m/Artist A - Song One.mp3'', ''/m/BadFormat.mp3'']
        \<and> length [''/m/Artist A - Song One.mp3''] + length (quarantined w')
            = length [''/m/Artist A - Song One.mp3'', ''/m/BadFormat.mp3''])
   \<and> tagged (world_of (id3_correct example_settings ''/m''
       [''/m/Artist A - Song One.mp3'', ''/m/BadFormat.mp3''] library))
     = [''/m/Artist A - Song One.mp3'']
   \<and> quarantined (world_of (id3_correct example_settings ''/m''
       [''/m/Artist A - Song One.mp3'', ''/m/BadFormat.mp3''] library))
     = [''/m/BadFormat.mp3'']"
proof -
  let ?r = "id3_correct example_settings ''/m''
       [''/m/Artist A - Song One.mp3'', ''/m/BadFormat.mp3''] library"
  have e: "returned ?r = Some [''/m/Artist A - Song One.mp3'']"
    "tagged (world_of ?r) = [''/m/Artist A - Song One.mp3'']"
    "quarantined (world_of ?r) = [''/m/BadFormat.mp3'']"
    by code_simp+
  from e(1) obtain w' where r: "?r = Returned [''/m/Artist A - Song One.mp3''] w'"
    by (cases ?r) (simp_all add: returned_def)
  from id3_correct_classifies_attempted_items [OF r] r e show ?thesis
    by blast
qed

subsection \<open>Isolation of failures\<close>

lemma artist_readableE:
  assumes "artist_readable w f"
  obtains m t a where "files w f = Some m" "id3_tags m = Some t" "first_artist t = Inr a"
  using assms
  by (auto simp: artist_readable_def isl_def split: option.splits) (metis sum.exhaust_sel isl_def)

lemma get_artwork_artist_primary:
  "first_artist t = Inr a \<Longrightarrow> get_artwork_artist st t = Inr (primary_artist st a)"
  by (simp add: get_artwork_artist_def primary_artist_def hd_re_split)

lemma first_artist_tags_add: "first_artist (tags_add t pic) = first_artist t"
  by (simp add: first_artist_def tags_add_def)

lemma get_artwork_item_readable:
  assumes "artist_readable w f"
  shows "\<exists>w'. get_artwork_item ds st f w = Returned () w' \<and> attempted w' = attempted w @ [f]
           \<and> (\<forall>g. artist_readable w g \<longrightarrow> artist_readable w' g)"
proof -
  from assms obtain m t a where on_disk: "files w f = Some m" "id3_tags m = Some t"
      "first_artist t = Inr a"
    by (rule artist_readableE)
  let ?w = "begin_item f w"
  let ?e = "embed_artwork ds f t (primary_artist st a) ?w"
  have fw: "files ?w = files w"
    by (simp add: begin_item_def)
  have item: "get_artwork_item ds st f w = Returned () (inc_and_print ?e)"
    using on_disk
    by (simp add: get_artwork_item_def Let_def MP3_def EasyID3_def add_tags_def fw
          get_artwork_artist_primary)
  have att: "attempted (inc_and_print ?e) = attempted w @ [f]"
    by (simp add: inc_and_print_def pg_print_def embed_artwork_rest begin_item_def)
  have keep: "artist_readable (inc_and_print ?e) g" if g: "artist_readable w g" for g
  proof -
    have fi: "files (inc_and_print ?e) = files ?e"
      by (simp add: inc_and_print_def pg_print_def)
    from embed_artwork_files [of ds f t "primary_artist st a" ?w]
    consider "files ?e = files w"
      | uri content where "files ?e = (files w)(f \<mapsto> m\<lparr>id3_tags :=
            Some (tags_add t (APIC (after_last_dot uri) content))\<rparr>)"
      using on_disk(1) by (auto simp: fw)
    then show ?thesis
    proof cases
      case 1
      then show ?thesis
        using g by (simp add: artist_readable_def fi)
    next
      case 2
      then show ?thesis
        using g on_disk(3)
        by (simp add: artist_readable_def fi first_artist_tags_add)
    qed
  qed
  from item att keep show ?thesis by blast
qed

lemma for_each_get_artwork_readable:
  "\<forall>f \<in> set fls. artist_readable w f \<Longrightarrow>
   \<exists>w'. for_each (get_artwork_item ds st) fls w = Returned () w'
        \<and> attempted w' = attempted w @ fls"
proof (induction fls arbitrary: w)
  case Nil
  then show ?case by simp
next
  case (Cons f fls)
  then have "artist_readable w f" by simp
  from get_artwork_item_readable [OF this, of ds st]
  obtain w1 where step: "get_artwork_item ds st f w = Returned () w1"
      "attempted w1 = attempted w @ [f]" "\<forall>g. artist_readable w g \<longrightarrow> artist_readable w1 g"
    by blast
  with Cons.prems have "\<forall>g \<in> set fls. artist_readable w1 g"
    by simp
  from Cons.IH [OF this]
  obtain w' where "for_each (get_artwork_item ds st) fls w1 = Returned () w'"
      "attempted w' = attempted w1 @ fls"
    by blast
  with step show ?case by simp
qed

lemma to_destination_completes:
  assumes "files w f = Some m" "id3_tags m = Some t" "first_artist t = Inr a0"
    and "os_path_join destination (primary_artist st a0) \<in> dirs w
         \<or> files w (os_path_join destination (primary_artist st a0)) \<noteq> None
         \<or> os_path_dirname (os_path_join destination (primary_artist st a0)) \<in> dirs w"
    and log: "\<And>s d w. pg (world_of (action s d w)) = pg w
      \<and> printed (world_of (action s d w)) = printed w
      \<and> attempted (world_of (action s d w)) = attempted w"
  shows "\<exists>w'. to_destination action st destination f w = Returned () w'
           \<and> attempted w' = attempted w @ [f]
           \<and> for_each (to_destination action st destination) (f # rest) w
               = for_each (to_destination action st destination) rest w'"
proof -
  from to_destination_returns [OF assms(1-4), of action]
  obtain w' where r: "to_destination action st destination f w = Returned () w'"
    by blast
  have "item_progress f w (to_destination action st destination f w)"
    using log by (rule to_destination_progress)
  with r have "attempted w' = attempted w @ [f]"
    by (simp add: item_progress_def)
  with r show ?thesis by simp
qed


text \<open>
  C2, as amended. The failures that the code catches are isolated to their item. In
  get_artwork these are the failures of the search, the download and the save: when the
  artist tag of every listed file can be read, the batch returns whatever the provider
  does, and every item is attempted, in order. In file_copy and file_move these are an
  already existing folder and a failing copy or move: an item whose artist tag can be
  read and whose folder exists or can be made completes, and the loop goes on with the
  remaining items.
\<close>

theorem swallowed_failures_do_not_abort:
  "((\<forall>f \<in> set fls. artist_readable w f)
      \<longrightarrow> (\<exists>w'. get_artwork ds st fls w = Returned fls w' \<and> attempted w' = fls))
   \<and> (files w file = Some m \<and> id3_tags m = Some t \<and> first_artist t = Inr a0
        \<and> (os_path_join destination (primary_artist st a0) \<in> dirs w
            \<or> files w (os_path_join destination (primary_artist st a0)) \<noteq> None
            \<or> os_path_dirname (os_path_join destination (primary_artist st a0)) \<in> dirs w)
      \<longrightarrow> (\<exists>w'. file_copy_item st destination file w = Returned () w'
              \<and> attempted w' = attempted w @ [file]
              \<and> for_each (file_copy_item st destination) (file # rest) w
                  = for_each (file_copy_item st destination) rest w')
          \<and> (\<exists>w'. file_move_item st destination file w = Returned () w'
              \<and> attempted w' = attempted w @ [file]
              \<and> for_each (file_move_item st destination) (file # rest) w
                  = for_each (file_move_item st destination) rest w'))"
proof -
  have artwork: "\<exists>w'. get_artwork ds st fls w = Returned fls w' \<and> attempted w' = fls"
    if readable: "\<forall>f \<in> set fls. artist_readable w f"
  proof -
    have "\<forall>f \<in> set fls. artist_readable (start (length fls) w) f"
      using readable by (simp add: artist_readable_def start_disk)
    from for_each_get_artwork_readable [OF this, of ds st]
    obtain w' where "for_each (get_artwork_item ds st) fls (start (length fls) w) = Returned () w'"
        "attempted w' = attempted (start (length fls) w) @ fls"
      by blast
    then show ?thesis
      by (simp add: get_artwork_def start_def pg_print_def)
  qed
  have copy_eq: "file_copy_item st destination = to_destination shutil_copy2 st destination"
    by (intro ext) (rule file_copy_item_to_destination)
  have move_eq: "file_move_item st destination = to_destination shutil_move st destination"
    by (intro ext) (rule file_move_item_to_destination)
  have transfer: "(\<exists>w'. file_copy_item st destination file w = Returned () w'
              \<and> attempted w' = attempted w @ [file]
              \<and> for_each (file_copy_item st destination) (file # rest) w
                  = for_each (file_copy_item st destination) rest w')
          \<and> (\<exists>w'. file_move_item st destination file w = Returned () w'
              \<and> attempted w' = attempted w @ [file]
              \<and> for_each (file_move_item st destination) (file # rest) w
                  = for_each (file_move_item st destination) rest w')"
    if pre: "files w file = Some m \<and> id3_tags m = Some t \<and> first_artist t = Inr a0
        \<and> (os_path_join destination (primary_artist st a0) \<in> dirs w
            \<or> files w (os_path_join destination (primary_artist st a0)) \<noteq> None
            \<or> os_path_dirname (os_path_join destination (primary_artist st a0)) \<in> dirs w)"
  proof -
    from pre have p: "files w file = Some m" "id3_tags m = Some t" "first_artist t = Inr a0"
      "os_path_join destination (primary_artist st a0) \<in> dirs w
            \<or> files w (os_path_join destination (primary_artist st a0)) \<noteq> None
            \<or> os_path_dirname (os_path_join destination (primary_artist st a0)) \<in> dirs w"
      by simp_all
    have c: "\<exists>w'. to_destination shutil_copy2 st destination file w = Returned () w'
           \<and> attempted w' = attempted w @ [file]
           \<and> for_each (to_destination shutil_copy2 st destination) (file # rest) w
               = for_each (to_destination shutil_copy2 st destination) rest w'"
      using p by (rule to_destination_completes) (simp add: shutil_copy2_log)
    have m: "\<exists>w'. to_destination shutil_move st destination file w = Returned () w'
           \<and> attempted w' = attempted w @ [file]
           \<and> for_each (to_destination shutil_move st destination) (file # rest) w
               = for_each (to_destination shutil_move st destination) rest w'"
      using p by (rule to_destination_completes) (simp add: shutil_move_log)
    from c have c': "\<exists>w'. file_copy_item st destination file w = Returned () w'
              \<and> attempted w' = attempted w @ [file]
              \<and> for_each (file_copy_item st destination) (file # rest) w
                  = for_each (file_copy_item st destination) rest w'"
      unfolding copy_eq .
    from m have m': "\<exists>w'. file_move_item st destination file w = Returned () w'
              \<and> attempted w' = attempted w @ [file]
              \<and> for_each (file_move_item st destination) (file # rest) w
                  = for_each (file_move_item st destination) rest w'"
      unfolding move_eq .
    from c' m' show ?thesis by (rule conjI)
  qed
  show ?thesis
  proof (rule conjI)
    show "(\<forall>f \<in> set fls. artist_readable w f)
      \<longrightarrow> (\<exists>w'. get_artwork ds st fls w = Returned fls w' \<and> attempted w' = fls)"
      using artwork by (rule impI)
  next
    show "files w file = Some m \<and> id3_tags m = Some t \<and> first_artist t = Inr a0
        \<and> (os_path_join destination (primary_artist st a0) \<in> dirs w
            \<or> files w (os_path_join destination (primary_artist st a0)) \<noteq> None
            \<or> os_path_dirname (os_path_join destination (primary_artist st a0)) \<in> dirs w)
      \<longrightarrow> (\<exists>w'. file_copy_item st destination file w = Returned () w'
              \<and> attempted w' = attempted w @ [file]
              \<and> for_each (file_copy_item st destination) (file # rest) w
                  = for_each (file_copy_item st destination) rest w')
          \<and> (\<exists>w'. file_move_item st destination file w = Returned () w'
              \<and> attempted w' = attempted w @ [file]
              \<and> for_each (file_move_item st destination) (file # rest) w
                  = for_each (file_move_item st destination) rest w')"
      using transfer by (rule impI)
  qed
qed


text \<open>
  C2 as stated fails: a failure outside the try blocks ends the batch, and the items
  after it are not attempted. id3_correct has no try block in its loop (here the first
  file has no tag container); get_artwork and file_copy read the tags outside theirs
  (here the first file has no artist frame, respectively no tag container).
\<close>

theorem unguarded_failure_aborts_batch:
  "raised (id3_correct example_settings ''/m''
       [''/m/X - Y.mp3'', ''/m/Artist A - Song One.mp3''] library) = Some ID3NoHeaderError
   \<and> attempted (world_of (id3_correct example_settings ''/m''
       [''/m/X - Y.mp3'', ''/m/Artist A - Song One.mp3''] library)) = [''/m/X - Y.mp3'']
   \<and> raised (get_artwork discogs example_settings
       [''/m/No - Artist.mp3'', ''/m/BadFormat.mp3''] library) = Some KeyError
   \<and> attempted (world_of (get_artwork discogs example_settings
       [''/m/No - Artist.mp3'', ''/m/BadFormat.mp3''] library)) = [''/m/No - Artist.mp3'']
   \<and> raised (file_copy example_settings ''/d''
       [''/m/X - Y.mp3'', ''/m/BadFormat.mp3''] library) = Some ID3NoHeaderError
   \<and> attempted (world_of (file_copy example_settings ''/d''
       [''/m/X - Y.mp3'', ''/m/BadFormat.mp3''] library)) = [''/m/X - Y.mp3'']"
  by code_simp


theorem swallowed_failures_do_not_abort_witness:
  "artist_readable library ''/m/BadFormat.mp3'' \<and> artist_readable library ''/m/Read - Only.mp3''
   \<and> (\<exists>w'. get_artwork offline example_settings
            [''/m/BadFormat.mp3'', ''/m/Read - Only.mp3''] library
          = Returned [''/m/BadFormat.mp3'', ''/m/Read - Only.mp3''] w'
        \<and> attempted w' = [''/m/BadFormat.mp3'', ''/m/Read - Only.mp3''])
   \<and> files library ''/m/No - Folder.mp3'' = Some (song ''Blocked'')
   \<and> files library (os_path_join ''/d'' (primary_artist example_settings ''Blocked'')) \<noteq> None
   \<and> raised (shutil_copy2 ''/m/No - Folder.mp3'' ''/d/Blocked/No - Folder.mp3'' library)
       = Some FileNotFoundError
   \<and> (\<exists>w'. file_copy_item example_settings ''/d'' ''/m/No - Folder.mp3'' library = Returned () w'
        \<and> attempted w' = attempted library @ [''/m/No - Folder.mp3'']
        \<and> for_each (file_copy_item example_settings ''/d'')
              [''/m/No - Folder.mp3'', ''/m/BadFormat.mp3''] library
            = for_each (file_copy_item example_settings ''/d'') [''/m/BadFormat.mp3''] w')
   \<and> (\<exists>w'. file_move_item example_settings ''/d'' ''/m/No - Folder.mp3'' library = Returned () w'
        \<and> attempted w' = attempted library @ [''/m/No - Folder.mp3''])"
proof -
  have r: "artist_readable library ''/m/BadFormat.mp3''"
    "artist_readable library ''/m/Read - Only.mp3''"
    by code_simp+
  then have h1: "\<forall>f \<in> set [''/m/BadFormat.mp3'', ''/m/Read - Only.mp3'']. artist_readable library f"
    by simp
  have h2: "files library ''/m/No - Folder.mp3'' = Some (song ''Blocked'')"
    "id3_tags (song ''Blocked'') = Some (empty_id3\<lparr>tag_artist := Some [''Blocked'']\<rparr>)"
    "first_artist (empty_id3\<lparr>tag_artist := Some [''Blocked'']\<rparr>) = Inr ''Blocked''"
    "files library (os_path_join ''/d'' (primary_artist example_settings ''Blocked'')) \<noteq> None"
    by code_simp+
  have c: "raised (shutil_copy2 ''/m/No - Folder.mp3'' ''/d/Blocked/No - Folder.mp3'' library)
       = Some FileNotFoundError"
    by code_simp
  show ?thesis
    using swallowed_failures_do_not_abort [of "[''/m/BadFormat.mp3'', ''/m/Read - Only.mp3'']"
        library offline example_settings "''/m/No - Folder.mp3''" "song ''Blocked''"
        "empty_id3\<lparr>tag_artist := Some [''Blocked'']\<rparr>" "''Blocked''" "''/d''"
        "[''/m/BadFormat.mp3'']"] r h1 h2 c
    by blast
qed

end
